theory Spec2Isabelle
  imports Complex_Main "HOL-Library.Monad_Syntax"
begin

section \<open>Values and schemas (types.ts)\<close>

text \<open>
  A JSON value as the parser builds it and the validator inspects it. Numbers are the
  exact rationals that a decimal literal denotes (rounding to binary64 is outside the
  model). A JavaScript string is a list of 8-bit code units. An object is the list of
  its own properties in insertion order; the prototype chain is not modelled.
\<close>

datatype json =
    JNull
  | JBool bool
  | JNum rat
  | JStr string
  | JArr "json list"
  | JObj "(string \<times> json) list"

datatype JSONSchemaType = TString | TNumber | TInteger | TBoolean | TObject | TArray | TNull

text \<open>
  The interface \<open>JSONSchema\<close>, one selector per keyword the code reads (an absent keyword
  is \<open>None\<close>). \<open>$ref\<close>, \<open>$defs\<close>, \<open>if\<close>, \<open>then\<close>, \<open>else\<close> and \<open>not\<close> are renamed, since
  they are not identifiers here. A union \<open>A | B\<close> is the sum \<open>A + B\<close>. The annotation
  keywords (\<open>$id\<close>, \<open>title\<close>, \<open>default\<close>, ...) are never read and are left out.
\<close>

datatype JSONSchema = JSONSchema
  (ref: "string option")
  (defs: "(string \<times> JSONSchema) list option")
  (definitions: "(string \<times> JSONSchema) list option")
  (type: "(JSONSchemaType + JSONSchemaType list) option")
  (enum: "json list option")
  (const: "json option")
  (multipleOf: "rat option")
  (maximum: "rat option")
  (exclusiveMaximum: "rat option")
  (minimum: "rat option")
  (exclusiveMinimum: "rat option")
  (maxLength: "rat option")
  (minLength: "rat option")
  (pattern: "string option")
  (format: "string option")
  (items: "(JSONSchema + JSONSchema list) option")
  (additionalItems: "(JSONSchema + bool) option")
  (maxItems: "rat option")
  (minItems: "rat option")
  (uniqueItems: "bool option")
  (contains: "JSONSchema option")
  (maxProperties: "rat option")
  (minProperties: "rat option")
  (required: "string list option")
  (properties: "(string \<times> JSONSchema) list option")
  (patternProperties: "(string \<times> JSONSchema) list option")
  (additionalProperties: "(JSONSchema + bool) option")
  (propertyNames: "JSONSchema option")
  (ifS: "JSONSchema option")
  (thenS: "JSONSchema option")
  (elseS: "JSONSchema option")
  (allOf: "JSONSchema list option")
  (anyOf: "JSONSchema list option")
  (oneOf: "JSONSchema list option")
  (notS: "JSONSchema option")

text \<open>The schema \<open>{}\<close> and the few object literals the examples below are built from.\<close>

definition emptySchema :: JSONSchema where
  "emptySchema = JSONSchema None None None None None None None None None None None None
     None None None None None None None None None None None None None None None None None
     None None None None None None"

definition typeSchema :: "JSONSchemaType \<Rightarrow> JSONSchema" where
  "typeSchema t = JSONSchema None None None (Some (Inl t)) None None None None None None
     None None None None None None None None None None None None None None None None None
     None None None None None None None None"

definition typesSchema :: "JSONSchemaType list \<Rightarrow> JSONSchema" where
  "typesSchema ts = JSONSchema None None None (Some (Inr ts)) None None None None None None
     None None None None None None None None None None None None None None None None None
     None None None None None None None None"

definition refSchema :: "string \<Rightarrow> JSONSchema" where
  "refSchema r = JSONSchema (Some r) None None None None None None None None None None None
     None None None None None None None None None None None None None None None None None
     None None None None None None"


definition objectSchema ::
  "(string \<times> JSONSchema) list \<Rightarrow> string list option \<Rightarrow> JSONSchema" where
  "objectSchema ps req = JSONSchema None None None (Some (Inl TObject)) None None None None
     None None None None None None None None None None None None None None None req
     (Some ps) None None None None None None None None None None"

definition withDefs :: "(string \<times> JSONSchema) list \<Rightarrow> JSONSchema \<Rightarrow> JSONSchema" where
  "withDefs ds s = (case s of JSONSchema a1 a2 a3 a4 a5 a6 a7 a8 a9 a10 a11 a12 a13 a14 a15
       a16 a17 a18 a19 a20 a21 a22 a23 a24 a25 a26 a27 a28 a29 a30 a31 a32 a33 a34 a35 \<Rightarrow>
     JSONSchema a1 (Some ds) a3 a4 a5 a6 a7 a8 a9 a10 a11 a12 a13 a14 a15
       a16 a17 a18 a19 a20 a21 a22 a23 a24 a25 a26 a27 a28 a29 a30 a31 a32 a33 a34 a35)"

record ValidationContext =
  cpath :: "string list"
  cschema :: JSONSchema
  croot :: JSONSchema
  cdefinitions :: "(string \<times> JSONSchema) list"

text \<open>
  \<open>ValidationError\<close>. The \<open>message\<close> field is display text (it interpolates numbers and
  \<open>JSON.stringify\<close> output) and is not modelled; no code path reads it back.
\<close>

record ValidationError =
  path :: "string list"
  keyword :: string
  schema :: JSONSchema
  "value" :: "json option"

section \<open>Host functions\<close>

text \<open>\<open>String(n)\<close> for a non-negative integer: its decimal digits.\<close>

definition digitChar :: "nat \<Rightarrow> char" where
  "digitChar d = char_of (48 + d)"

fun showNat :: "nat \<Rightarrow> string" where
  "showNat n = (if n < 10 then [digitChar n] else showNat (n div 10) @ [digitChar (n mod 10)])"

declare showNat.simps [simp del]

definition isDigit :: "char \<Rightarrow> bool" where
  "isDigit c = (48 \<le> (of_char c :: nat) \<and> (of_char c :: nat) \<le> 57)"

definition digitVal :: "char \<Rightarrow> nat" where
  "digitVal c = of_char c - 48"

text \<open>The regular expression \<open>\s\<close> on 8-bit code units.\<close>

definition isWhitespace :: "char \<Rightarrow> bool" where
  "isWhitespace c = (c \<in> set [char_of (9::nat), char_of (10::nat), char_of (11::nat),
     char_of (12::nat), char_of (13::nat), char_of (32::nat), char_of (160::nat)])"

definition digitsVal :: "string \<Rightarrow> nat" where
  "digitsVal ds = foldl (\<lambda>acc c. 10 * acc + digitVal c) 0 ds"

text \<open>
  \<open>parseInt(s, 10)\<close>: leading white space, an optional sign, then the longest run of
  decimal digits; \<open>None\<close> is \<open>NaN\<close>. The result \<open>-0\<close> indexes like \<open>0\<close>, as it does in
  the host.
\<close>

definition parseInt :: "string \<Rightarrow> int option" where
  "parseInt s =
     (let t = dropWhile isWhitespace s;
          neg = (t \<noteq> [] \<and> hd t = CHR ''-'');
          u = (if t \<noteq> [] \<and> (hd t = CHR ''-'' \<or> hd t = CHR ''+'') then tl t else t);
          ds = takeWhile isDigit u
      in if ds = [] then None
         else Some (if neg then - int (digitsVal ds) else int (digitsVal ds)))"

text \<open>\<open>a.join(sep)\<close>.\<close>

fun join :: "string \<Rightarrow> string list \<Rightarrow> string" where
  "join sep [] = []"
| "join sep [x] = x"
| "join sep (x # y # ys) = x @ sep @ join sep (y # ys)"

text \<open>\<open>s.startsWith(p)\<close>.\<close>

definition startsWith :: "string \<Rightarrow> string \<Rightarrow> bool" where
  "startsWith s p = (take (length p) s = p)"

text \<open>\<open>s.split('/').pop()\<close>: what follows the last slash.\<close>

definition lastSegment :: "string \<Rightarrow> string" where
  "lastSegment s = rev (takeWhile (\<lambda>c. c \<noteq> CHR ''/'') (rev s))"

text \<open>
  Property assignment \<open>o[k] = v\<close> on a record kept as a list: an existing key keeps its
  place, a new key goes last. \<open>{...a, ...b}\<close> assigns the properties of \<open>b\<close> over \<open>a\<close>.
\<close>

fun recordSet :: "(string \<times> 'a) list \<Rightarrow> string \<Rightarrow> 'a \<Rightarrow> (string \<times> 'a) list" where
  "recordSet [] k v = [(k, v)]"
| "recordSet ((k', v') # kvs) k v =
     (if k' = k then (k, v) # kvs else (k', v') # recordSet kvs k v)"

definition spread :: "(string \<times> 'a) list \<Rightarrow> (string \<times> 'a) list \<Rightarrow> (string \<times> 'a) list" where
  "spread a b = fold (\<lambda>(k, v) acc. recordSet acc k v) b a"

section \<open>The schema validator (class SchemaValidator)\<close>

record ValidatorOptions =
  earlyReject :: bool
  allErrors :: bool

text \<open>
  The validator object. \<open>regexTest p s\<close> stands for the host's \<open>new RegExp(p).test(s)\<close>
  (with the flag \<open>i\<close> written into \<open>p\<close> where the source has it); the regular expression
  engine is not part of this program and stays a parameter.
\<close>

record SchemaValidator =
  vschema :: JSONSchema
  voptions :: ValidatorOptions
  vdefinitions :: "(string \<times> JSONSchema) list"
  regexTest :: "string \<Rightarrow> string \<Rightarrow> bool"

definition orEmpty :: "'a list option \<Rightarrow> 'a list" where
  "orEmpty x = (case x of None \<Rightarrow> [] | Some xs \<Rightarrow> xs)"

text \<open>The constructor with its default options (\<open>earlyReject\<close> true, \<open>allErrors\<close> false).\<close>

definition newSchemaValidator ::
  "(string \<Rightarrow> string \<Rightarrow> bool) \<Rightarrow> JSONSchema \<Rightarrow> ValidatorOptions \<Rightarrow> SchemaValidator" where
  "newSchemaValidator rx s opts =
     \<lparr> vschema = s, voptions = opts,
       vdefinitions = spread (orEmpty (defs s)) (orEmpty (definitions s)),
       regexTest = rx \<rparr>"

definition defaultValidatorOptions :: ValidatorOptions where
  "defaultValidatorOptions = \<lparr> earlyReject = True, allErrors = False \<rparr>"

text \<open>
  \<open>resolveRef\<close> follows \<open>$ref\<close> pointers through the definitions table and calls itself
  on what it finds. It need not return; \<open>None\<close> is the call that never returns.
\<close>

partial_function (option) resolveRef ::
  "(string \<times> JSONSchema) list \<Rightarrow> JSONSchema \<Rightarrow> JSONSchema option" where
  "resolveRef ds s =
     (case ref s of
        None \<Rightarrow> Some s
      | Some r \<Rightarrow>
          if r = [] then Some s
          else if startsWith r ''#/$defs/'' \<or> startsWith r ''#/definitions/'' then
            (if lastSegment r \<noteq> [] then
               (case map_of ds (lastSegment r) of
                  Some d \<Rightarrow> resolveRef ds d
                | None \<Rightarrow> Some s)
             else Some s)
          else Some s)"

declare resolveRef.simps [code]

text \<open>
  \<open>getSchemaAtPath\<close>. The outer \<open>option\<close> is \<open>resolveRef\<close> not returning; inside it
  \<open>None\<close> is \<open>undefined\<close>.
\<close>

definition tupleItem :: "JSONSchema list \<Rightarrow> string \<Rightarrow> JSONSchema option" where
  "tupleItem its segment =
     (case parseInt segment of
        None \<Rightarrow> None
      | Some i \<Rightarrow> if 0 \<le> i \<and> nat i < length its then Some (its ! nat i) else None)"

fun schemaAtPathFrom ::
  "(string \<times> JSONSchema) list \<Rightarrow> JSONSchema \<Rightarrow> string list \<Rightarrow> JSONSchema option option" where
  "schemaAtPathFrom ds current [] = map_option Some (resolveRef ds current)"
| "schemaAtPathFrom ds current (segment # rest) =
     (case resolveRef ds current of
        None \<Rightarrow> None
      | Some cur \<Rightarrow>
          (case map_of (orEmpty (properties cur)) segment of
             Some p \<Rightarrow> schemaAtPathFrom ds p rest
           | None \<Rightarrow>
               (case additionalProperties cur of
                  Some (Inl ap) \<Rightarrow> schemaAtPathFrom ds ap rest
                | _ \<Rightarrow>
                    (case items cur of
                       Some (Inr its) \<Rightarrow>
                         (case tupleItem its segment of
                            Some it \<Rightarrow> schemaAtPathFrom ds it rest
                          | None \<Rightarrow>
                              (case additionalItems cur of
                                 Some (Inl ai) \<Rightarrow> schemaAtPathFrom ds ai rest
                               | _ \<Rightarrow> Some None))
                     | Some (Inl it) \<Rightarrow> schemaAtPathFrom ds it rest
                     | None \<Rightarrow> Some None))))"

definition getSchemaAtPath :: "SchemaValidator \<Rightarrow> string list \<Rightarrow> JSONSchema option option" where
  "getSchemaAtPath v p = schemaAtPathFrom (vdefinitions v) (vschema v) p"

definition canBeType :: "SchemaValidator \<Rightarrow> JSONSchemaType \<Rightarrow> string list \<Rightarrow> bool option" where
  "canBeType v t p =
     (case getSchemaAtPath v p of
        None \<Rightarrow> None
      | Some None \<Rightarrow> Some True
      | Some (Some subSchema) \<Rightarrow>
          (case resolveRef (vdefinitions v) subSchema of
             None \<Rightarrow> None
           | Some resolved \<Rightarrow>
               Some (case type resolved of
                  None \<Rightarrow>
                    if properties resolved \<noteq> None \<or> required resolved \<noteq> None then t = TObject
                    else if items resolved \<noteq> None then t = TArray
                    else True
                | Some (Inr ts) \<Rightarrow> t \<in> set ts
                | Some (Inl ty) \<Rightarrow> if ty = TInteger \<and> t = TNumber then True else ty = t)))"

definition getRequiredFields :: "SchemaValidator \<Rightarrow> string list \<Rightarrow> string list option" where
  "getRequiredFields v p =
     (case getSchemaAtPath v p of
        None \<Rightarrow> None
      | Some None \<Rightarrow> Some []
      | Some (Some s) \<Rightarrow> Some (orEmpty (required s)))"

definition isRequired :: "SchemaValidator \<Rightarrow> string \<Rightarrow> string list \<Rightarrow> bool option" where
  "isRequired v fieldName parentPath =
     (case getSchemaAtPath v parentPath of
        None \<Rightarrow> None
      | Some None \<Rightarrow> Some False
      | Some (Some s) \<Rightarrow> Some (fieldName \<in> set (orEmpty (required s))))"


subsection \<open>Validation of one value\<close>

definition getJSONType :: "json \<Rightarrow> JSONSchemaType" where
  "getJSONType x =
     (case x of
        JNull \<Rightarrow> TNull
      | JArr _ \<Rightarrow> TArray
      | JObj _ \<Rightarrow> TObject
      | JStr _ \<Rightarrow> TString
      | JNum _ \<Rightarrow> TNumber
      | JBool _ \<Rightarrow> TBoolean)"

text \<open>\<open>Number.isInteger\<close>.\<close>

definition isInteger :: "json \<Rightarrow> bool" where
  "isInteger x = (case x of JNum q \<Rightarrow> of_int \<lfloor>q\<rfloor> = q | _ \<Rightarrow> False)"

definition createError :: "ValidationContext \<Rightarrow> string \<Rightarrow> json option \<Rightarrow> ValidationError" where
  "createError ctx kw x = \<lparr> path = cpath ctx, keyword = kw, schema = cschema ctx, value = x \<rparr>"

text \<open>\<open>a[k]\<close> for an array \<open>a\<close> and a property name \<open>k\<close>: an index or \<open>length\<close>.\<close>

definition arrayGet :: "json list \<Rightarrow> string \<Rightarrow> json option" where
  "arrayGet ys k =
     (case find (\<lambda>i. showNat i = k) [0..<length ys] of
        Some i \<Rightarrow> Some (ys ! i)
      | None \<Rightarrow> if k = ''length'' then Some (JNum (of_nat (length ys))) else None)"

text \<open>
  \<open>deepEqual\<close>. Two distinct values are \<open>===\<close> only as equal primitives. An array and an
  object both have \<open>typeof\<close> \<open>object\<close> and are compared through their keys, as the last
  branch of the source does.
\<close>

fun deepEqual :: "json \<Rightarrow> json \<Rightarrow> bool" where
  "deepEqual (JArr xs) (JArr ys) = (length xs = length ys \<and> list_all2 deepEqual xs ys)"
| "deepEqual (JObj kvs) (JObj kws) =
     (length kvs = length kws \<and>
      list_all (\<lambda>(k, x). case map_of kws k of None \<Rightarrow> False | Some w \<Rightarrow> deepEqual x w) kvs)"
| "deepEqual (JArr xs) (JObj kws) =
     (length xs = length kws \<and>
      list_all2 (\<lambda>x i. case map_of kws (showNat i) of None \<Rightarrow> False | Some w \<Rightarrow> deepEqual x w)
        xs [0..<length xs])"
| "deepEqual (JObj kvs) (JArr ys) =
     (length kvs = length ys \<and>
      list_all (\<lambda>(k, x). case arrayGet ys k of None \<Rightarrow> False | Some w \<Rightarrow> deepEqual x w) kvs)"
| "deepEqual JNull b = (b = JNull)"
| "deepEqual (JBool a) b = (b = JBool a)"
| "deepEqual (JNum a) b = (b = JNum a)"
| "deepEqual (JStr a) b = (b = JStr a)"
| "deepEqual (JArr xs) b = False"
| "deepEqual (JObj kvs) b = False"

definition typeList :: "JSONSchemaType + JSONSchemaType list \<Rightarrow> JSONSchemaType list" where
  "typeList ty = (case ty of Inl t \<Rightarrow> [t] | Inr ts \<Rightarrow> ts)"

definition validateType ::
  "json \<Rightarrow> JSONSchemaType + JSONSchemaType list \<Rightarrow> ValidationContext \<Rightarrow> ValidationError list" where
  "validateType x ty ctx =
     (if list_ex (\<lambda>t. t = getJSONType x \<or>
                       (t = TInteger \<and> getJSONType x = TNumber \<and> isInteger x)) (typeList ty)
      then []
      else [createError ctx ''type'' (Some x)])"

text \<open>The table \<open>formats\<close>; a regular expression literal is kept as its source text.\<close>

definition bsl :: string where
  "bsl = [CHR 0x5C]"

definition formats :: "(string \<times> string) list" where
  "formats =
     [(''date-time'', ''^'' @ bsl @ ''d{4}-'' @ bsl @ ''d{2}-'' @ bsl @ ''d{2}T'' @ bsl @ ''d{2}:''
          @ bsl @ ''d{2}:'' @ bsl @ ''d{2}('' @ bsl @ ''.'' @ bsl @ ''d+)?(Z|[+-]'' @ bsl
          @ ''d{2}:'' @ bsl @ ''d{2})$''),
      (''date'', ''^'' @ bsl @ ''d{4}-'' @ bsl @ ''d{2}-'' @ bsl @ ''d{2}$''),
      (''time'', ''^'' @ bsl @ ''d{2}:'' @ bsl @ ''d{2}:'' @ bsl @ ''d{2}('' @ bsl @ ''.'' @ bsl
          @ ''d+)?(Z|[+-]'' @ bsl @ ''d{2}:'' @ bsl @ ''d{2})?$''),
      (''email'', ''^[^'' @ bsl @ ''s@]+@[^'' @ bsl @ ''s@]+'' @ bsl @ ''.[^'' @ bsl @ ''s@]+$''),
      (''uri'', ''^[a-zA-Z][a-zA-Z0-9+.-]*:''),
      (''uuid'', ''(?i)^[0-9a-f]{8}-[0-9a-f]{4}-[0-9a-f]{4}-[0-9a-f]{4}-[0-9a-f]{12}$''),
      (''ipv4'', ''^('' @ bsl @ ''d{1,3}'' @ bsl @ ''.){3}'' @ bsl @ ''d{1,3}$''),
      (''ipv6'', ''(?i)^([0-9a-f]{1,4}:){7}[0-9a-f]{1,4}$'')]"

text \<open>\<open>validateFormat\<close>: true when the source returns an error message.\<close>

definition validateFormat :: "SchemaValidator \<Rightarrow> string \<Rightarrow> string \<Rightarrow> bool" where
  "validateFormat v x fmt =
     (case map_of formats fmt of
        Some regex \<Rightarrow> \<not> regexTest v regex x
      | None \<Rightarrow> False)"

definition validateString ::
  "SchemaValidator \<Rightarrow> string \<Rightarrow> JSONSchema \<Rightarrow> ValidationContext \<Rightarrow> ValidationError list" where
  "validateString v x s ctx =
     (case minLength s of
        Some m \<Rightarrow> if of_nat (length x) < m then [createError ctx ''minLength'' (Some (JStr x))] else []
      | None \<Rightarrow> [])
     @ (case maxLength s of
        Some m \<Rightarrow> if of_nat (length x) > m then [createError ctx ''maxLength'' (Some (JStr x))] else []
      | None \<Rightarrow> [])
     @ (case pattern s of
        Some p \<Rightarrow> if \<not> regexTest v p x then [createError ctx ''pattern'' (Some (JStr x))] else []
      | None \<Rightarrow> [])
     @ (case format s of
        Some f \<Rightarrow> if validateFormat v x f then [createError ctx ''format'' (Some (JStr x))] else []
      | None \<Rightarrow> [])"

text \<open>
  \<open>value % m !== 0\<close>: the remainder of the host is zero exactly when \<open>m\<close> is not zero and
  the quotient is an integer (for \<open>m = 0\<close> it is \<open>NaN\<close>, which differs from 0).
\<close>

definition notMultipleOf :: "rat \<Rightarrow> rat \<Rightarrow> bool" where
  "notMultipleOf x m = (m = 0 \<or> of_int \<lfloor>x / m\<rfloor> \<noteq> x / m)"

definition validateNumber ::
  "rat \<Rightarrow> JSONSchema \<Rightarrow> ValidationContext \<Rightarrow> ValidationError list" where
  "validateNumber x s ctx =
     (case minimum s of
        Some m \<Rightarrow> if x < m then [createError ctx ''minimum'' (Some (JNum x))] else []
      | None \<Rightarrow> [])
     @ (case maximum s of
        Some m \<Rightarrow> if x > m then [createError ctx ''maximum'' (Some (JNum x))] else []
      | None \<Rightarrow> [])
     @ (case exclusiveMinimum s of
        Some m \<Rightarrow> if x \<le> m then [createError ctx ''exclusiveMinimum'' (Some (JNum x))] else []
      | None \<Rightarrow> [])
     @ (case exclusiveMaximum s of
        Some m \<Rightarrow> if x \<ge> m then [createError ctx ''exclusiveMaximum'' (Some (JNum x))] else []
      | None \<Rightarrow> [])
     @ (case multipleOf s of
        Some m \<Rightarrow> if notMultipleOf x m then [createError ctx ''multipleOf'' (Some (JNum x))] else []
      | None \<Rightarrow> [])"

text \<open>
  Loops over sub-validations. Each call may fail to return, so the loops are sequential
  in the option monad: \<open>appendAllM\<close> is a \<open>for\<close> loop pushing every result, \<open>someM\<close> is
  \<open>Array.prototype.some\<close> (it stops at the first hit), \<open>countM\<close> is \<open>filter(...).length\<close>.
\<close>

fun appendAllM :: "('a \<Rightarrow> 'e list option) \<Rightarrow> 'a list \<Rightarrow> 'e list option" where
  "appendAllM f [] = Some []"
| "appendAllM f (x # xs) =
     (case f x of
        None \<Rightarrow> None
      | Some es \<Rightarrow> (case appendAllM f xs of None \<Rightarrow> None | Some fs \<Rightarrow> Some (es @ fs)))"

fun someM :: "('a \<Rightarrow> bool option) \<Rightarrow> 'a list \<Rightarrow> bool option" where
  "someM f [] = Some False"
| "someM f (x # xs) =
     (case f x of
        None \<Rightarrow> None
      | Some True \<Rightarrow> Some True
      | Some False \<Rightarrow> someM f xs)"

fun countM :: "('a \<Rightarrow> bool option) \<Rightarrow> 'a list \<Rightarrow> nat option" where
  "countM f [] = Some 0"
| "countM f (x # xs) =
     (case f x of
        None \<Rightarrow> None
      | Some b \<Rightarrow>
          (case countM f xs of None \<Rightarrow> None | Some n \<Rightarrow> Some (if b then Suc n else n)))"

definition noErrors :: "'e list option \<Rightarrow> bool option" where
  "noErrors r = map_option (\<lambda>es. es = []) r"

text \<open>
  \<open>validateArray\<close> and \<open>validateObject\<close> call back into \<open>validateValue\<close>, which is their
  first argument here. \<open>uniqueItems\<close> compares the \<open>JSON.stringify\<close> texts of the items;
  that function is injective on values of type \<open>json\<close>, so the test is \<open>distinct\<close>.
\<close>

definition validateArray ::
  "(json \<Rightarrow> ValidationContext \<Rightarrow> ValidationError list option) \<Rightarrow>
   json list \<Rightarrow> JSONSchema \<Rightarrow> ValidationContext \<Rightarrow> ValidationError list option" where
  "validateArray rec xs s ctx = do {
     let e1 = (case minItems s of
                 Some m \<Rightarrow> if of_nat (length xs) < m
                           then [createError ctx ''minItems'' (Some (JArr xs))] else []
               | None \<Rightarrow> []);
     let e2 = (case maxItems s of
                 Some m \<Rightarrow> if of_nat (length xs) > m
                           then [createError ctx ''maxItems'' (Some (JArr xs))] else []
               | None \<Rightarrow> []);
     let e3 = (if uniqueItems s = Some True \<and> \<not> distinct xs
               then [createError ctx ''uniqueItems'' (Some (JArr xs))] else []);
     e4 \<leftarrow> (case items s of
              None \<Rightarrow> Some []
            | Some (Inr its) \<Rightarrow>
                appendAllM (\<lambda>i.
                  (case (if i < length its then Some (its ! i)
                         else (case additionalItems s of Some (Inl ai) \<Rightarrow> Some ai | _ \<Rightarrow> None)) of
                     Some itemSchema \<Rightarrow>
                       rec (xs ! i) (ctx\<lparr> cpath := cpath ctx @ [showNat i], cschema := itemSchema \<rparr>)
                   | None \<Rightarrow>
                       Some (if additionalItems s = Some (Inr False) \<and> i \<ge> length its
                             then [createError ctx ''additionalItems'' (Some (xs ! i))] else [])))
                  [0..<length xs]
            | Some (Inl it) \<Rightarrow>
                appendAllM (\<lambda>i.
                  rec (xs ! i) (ctx\<lparr> cpath := cpath ctx @ [showNat i], cschema := it \<rparr>))
                  [0..<length xs]);
     e5 \<leftarrow> (case contains s of
              None \<Rightarrow> Some []
            | Some c \<Rightarrow> do {
                containsValid \<leftarrow> someM (\<lambda>item. noErrors (rec item (ctx\<lparr> cschema := c \<rparr>))) xs;
                Some (if \<not> containsValid then [createError ctx ''contains'' None] else [])
              });
     Some (e1 @ e2 @ e3 @ e4 @ e5)
   }"

definition validateObject ::
  "SchemaValidator \<Rightarrow> (json \<Rightarrow> ValidationContext \<Rightarrow> ValidationError list option) \<Rightarrow>
   (string \<times> json) list \<Rightarrow> JSONSchema \<Rightarrow> ValidationContext \<Rightarrow> ValidationError list option" where
  "validateObject v rec kvs s ctx = do {
     let keys = map fst kvs;
     let e1 = (case minProperties s of
                 Some m \<Rightarrow> if of_nat (length keys) < m
                           then [createError ctx ''minProperties'' None] else []
               | None \<Rightarrow> []);
     let e2 = (case maxProperties s of
                 Some m \<Rightarrow> if of_nat (length keys) > m
                           then [createError ctx ''maxProperties'' None] else []
               | None \<Rightarrow> []);
     let e3 = concat (map (\<lambda>r. if r \<notin> set keys then [createError ctx ''required'' None] else [])
                (orEmpty (required s)));
     let props = filter (\<lambda>(key, propSchema). key \<in> set keys) (orEmpty (properties s));
     e4 \<leftarrow> appendAllM (\<lambda>(key, propSchema).
             rec (the (map_of kvs key)) (ctx\<lparr> cpath := cpath ctx @ [key], cschema := propSchema \<rparr>))
           props;
     let pats = concat (map (\<lambda>(pat, patternSchema).
                  map (\<lambda>key. (key, patternSchema)) (filter (\<lambda>key. regexTest v pat key) keys))
                (orEmpty (patternProperties s)));
     e5 \<leftarrow> appendAllM (\<lambda>(key, patternSchema).
             rec (the (map_of kvs key)) (ctx\<lparr> cpath := cpath ctx @ [key], cschema := patternSchema \<rparr>))
           pats;
     let validatedKeys = map fst props @ map fst pats;
     let additionalKeys = filter (\<lambda>k. k \<notin> set validatedKeys) keys;
     e6 \<leftarrow> (case additionalProperties s of
              Some (Inr False) \<Rightarrow>
                Some (map (\<lambda>key. createError ctx ''additionalProperties'' None) additionalKeys)
            | Some (Inl ap) \<Rightarrow>
                appendAllM (\<lambda>key.
                  rec (the (map_of kvs key)) (ctx\<lparr> cpath := cpath ctx @ [key], cschema := ap \<rparr>))
                  additionalKeys
            | _ \<Rightarrow> Some []);
     e7 \<leftarrow> (case propertyNames s of
              None \<Rightarrow> Some []
            | Some pn \<Rightarrow>
                appendAllM (\<lambda>key. do {
                    nameErrors \<leftarrow> rec (JStr key) (ctx\<lparr> cschema := pn \<rparr>);
                    Some (if nameErrors \<noteq> [] then [createError ctx ''propertyNames'' None] else [])
                  }) keys);
     Some (e1 @ e2 @ e3 @ e4 @ e5 @ e6 @ e7)
   }"

text \<open>
  \<open>validateValue\<close>. The recursion follows the schema and, through \<open>$ref\<close>, the definitions
  table, so it need not end; the first argument bounds the depth of nested calls and
  \<open>None\<close> is a call that did not return within it.
\<close>

primrec validateValue ::
  "nat \<Rightarrow> SchemaValidator \<Rightarrow> json \<Rightarrow> ValidationContext \<Rightarrow> ValidationError list option" where
  "validateValue 0 v x ctx = None"
| "validateValue (Suc n) v x ctx =
     (case resolveRef (vdefinitions v) (cschema ctx) of
        None \<Rightarrow> None
      | Some s \<Rightarrow>
          (let typeErrors = (case type s of None \<Rightarrow> [] | Some ty \<Rightarrow> validateType x ty ctx)
           in if typeErrors \<noteq> [] \<and> earlyReject (voptions v) then Some typeErrors
              else do {
                let constErrors = (case const s of
                      Some c \<Rightarrow> if \<not> deepEqual x c then [createError ctx ''const'' None] else []
                    | None \<Rightarrow> []);
                let enumErrors = (case enum s of
                      Some es \<Rightarrow> if \<not> list_ex (\<lambda>e. deepEqual x e) es
                                 then [createError ctx ''enum'' None] else []
                    | None \<Rightarrow> []);
                kindErrors \<leftarrow> (case x of
                      JStr str \<Rightarrow> Some (validateString v str s ctx)
                    | JNum q \<Rightarrow> Some (validateNumber q s ctx)
                    | JArr xs \<Rightarrow> validateArray (\<lambda>y c. validateValue n v y c) xs s ctx
                    | JObj kvs \<Rightarrow> validateObject v (\<lambda>y c. validateValue n v y c) kvs s ctx
                    | _ \<Rightarrow> Some []);
                allOfErrors \<leftarrow> (case allOf s of
                      None \<Rightarrow> Some []
                    | Some subs \<Rightarrow>
                        appendAllM (\<lambda>sub. validateValue n v x (ctx\<lparr> cschema := sub \<rparr>)) subs);
                anyOfErrors \<leftarrow> (case anyOf s of
                      None \<Rightarrow> Some []
                    | Some subs \<Rightarrow> do {
                        anyValid \<leftarrow> someM (\<lambda>sub.
                          noErrors (validateValue n v x (ctx\<lparr> cschema := sub \<rparr>))) subs;
                        Some (if \<not> anyValid then [createError ctx ''anyOf'' None] else [])
                      });
                oneOfErrors \<leftarrow> (case oneOf s of
                      None \<Rightarrow> Some []
                    | Some subs \<Rightarrow> do {
                        validCount \<leftarrow> countM (\<lambda>sub.
                          noErrors (validateValue n v x (ctx\<lparr> cschema := sub \<rparr>))) subs;
                        Some (if validCount \<noteq> 1 then [createError ctx ''oneOf'' None] else [])
                      });
                notErrors \<leftarrow> (case notS s of
                      None \<Rightarrow> Some []
                    | Some sub \<Rightarrow> do {
                        es \<leftarrow> validateValue n v x (ctx\<lparr> cschema := sub \<rparr>);
                        Some (if es = [] then [createError ctx ''not'' None] else [])
                      });
                ifErrors \<leftarrow> (case ifS s of
                      None \<Rightarrow> Some []
                    | Some sub \<Rightarrow> do {
                        es \<leftarrow> validateValue n v x (ctx\<lparr> cschema := sub \<rparr>);
                        (if es = [] then
                           (case thenS s of
                              Some t \<Rightarrow> validateValue n v x (ctx\<lparr> cschema := t \<rparr>)
                            | None \<Rightarrow> Some [])
                         else
                           (case elseS s of
                              Some e \<Rightarrow> validateValue n v x (ctx\<lparr> cschema := e \<rparr>)
                            | None \<Rightarrow> Some []))
                      });
                Some (typeErrors @ constErrors @ enumErrors @ kindErrors @ allOfErrors
                      @ anyOfErrors @ oneOfErrors @ notErrors @ ifErrors)
              }))"

text \<open>
  \<open>validate(value, path)\<close>; its first argument is the bound on nested \<open>validateValue\<close>
  calls.
\<close>

definition validate ::
  "nat \<Rightarrow> SchemaValidator \<Rightarrow> json \<Rightarrow> string list \<Rightarrow> ValidationError list option" where
  "validate n v x p =
     (case (if p \<noteq> [] then getSchemaAtPath v p else Some (Some (vschema v))) of
        None \<Rightarrow> None
      | Some None \<Rightarrow> Some []
      | Some (Some schemaAtPath) \<Rightarrow>
          validateValue n v x
            \<lparr> cpath = p, cschema = schemaAtPath, croot = vschema v,
              cdefinitions = vdefinitions v \<rparr>)"


subsection \<open>Reference chains\<close>

text \<open>
  The schema that one call of \<open>resolveRef\<close> hands to its recursive call, if it makes
  one: the definition named by the last segment of a same-document \<open>$ref\<close>.
\<close>

definition refTarget :: "(string \<times> JSONSchema) list \<Rightarrow> JSONSchema \<Rightarrow> JSONSchema option" where
  "refTarget ds s =
     (case ref s of
        None \<Rightarrow> None
      | Some r \<Rightarrow>
          if r \<noteq> [] \<and> (startsWith r ''#/$defs/'' \<or> startsWith r ''#/definitions/'')
             \<and> lastSegment r \<noteq> []
          then map_of ds (lastSegment r) else None)"

text \<open>Two definitions that point at each other: \<open>{a: {$ref: #/$defs/b}, b: {$ref: #/$defs/a}}\<close>.\<close>

definition cyclicDefs :: "(string \<times> JSONSchema) list" where
  "cyclicDefs = [(''a'', refSchema ''#/$defs/b''), (''b'', refSchema ''#/$defs/a'')]"

text \<open>A chain that ends: \<open>{a: {$ref: #/$defs/b}, b: {type: string}}\<close>.\<close>

definition chainDefs :: "(string \<times> JSONSchema) list" where
  "chainDefs = [(''a'', refSchema ''#/$defs/b''), (''b'', typeSchema TString)]"

definition chainRank :: "JSONSchema \<Rightarrow> nat" where
  "chainRank s = (if ref s = None then 0 else 1)"

section \<open>The tokenizer (class StreamingTokenizer)\<close>

datatype TokenType =
    TokObjectStart | TokObjectEnd | TokArrayStart | TokArrayEnd
  | TokString | TokNumber | TokBoolean | TokNull
  | TokColon | TokComma | TokKey
  | TokPartialString | TokPartialNumber | TokPartialKey
  | TokError

text \<open>The string values of the enumeration, as \<open>${token.type}\<close> prints them.\<close>

definition tokenTypeName :: "TokenType \<Rightarrow> string" where
  "tokenTypeName t =
     (case t of
        TokObjectStart \<Rightarrow> ''OBJECT_START'' | TokObjectEnd \<Rightarrow> ''OBJECT_END''
      | TokArrayStart \<Rightarrow> ''ARRAY_START'' | TokArrayEnd \<Rightarrow> ''ARRAY_END''
      | TokString \<Rightarrow> ''STRING'' | TokNumber \<Rightarrow> ''NUMBER''
      | TokBoolean \<Rightarrow> ''BOOLEAN'' | TokNull \<Rightarrow> ''NULL''
      | TokColon \<Rightarrow> ''COLON'' | TokComma \<Rightarrow> ''COMMA'' | TokKey \<Rightarrow> ''KEY''
      | TokPartialString \<Rightarrow> ''PARTIAL_STRING'' | TokPartialNumber \<Rightarrow> ''PARTIAL_NUMBER''
      | TokPartialKey \<Rightarrow> ''PARTIAL_KEY'' | TokError \<Rightarrow> ''ERROR'')"

text \<open>
  A token. Its \<open>value\<close> is \<open>null\<close> for structural tokens, a string for strings, keys and
  error messages, a number or a boolean otherwise, so it is a \<open>json\<close>.
\<close>

record Token =
  ttype :: TokenType
  tvalue :: json
  raw :: string
  tposition :: nat
  isPartial :: bool

text \<open>The options as the caller passes them (every field optional) and as stored.\<close>

record TokenizerOptionsArg =
  argAllowTrailingCommas :: "bool option"
  argAllowUnquotedKeys :: "bool option"
  argAllowSingleQuotes :: "bool option"
  argLlmMode :: "bool option"

record TokenizerOptions =
  tAllowTrailingCommas :: bool
  tAllowUnquotedKeys :: bool
  tAllowSingleQuotes :: bool
  tLlmMode :: bool

text \<open>
  The tokenizer object; the fields of \<open>TokenizerState\<close> are inlined. \<open>escapeNext\<close> and
  \<open>currentToken\<close> are initialised and never touched again, and are left out.
\<close>

record StreamingTokenizer =
  toptions :: TokenizerOptions
  buffer :: string
  position :: nat
  inString :: bool
  stringQuote :: "char option"
  tokens :: "Token list"
  expectingKey :: bool

text \<open>The operator \<open>??\<close>.\<close>

definition nullish :: "'a option \<Rightarrow> 'a \<Rightarrow> 'a" where
  "nullish x d = (case x of Some y \<Rightarrow> y | None \<Rightarrow> d)"

definition newStreamingTokenizer :: "TokenizerOptionsArg \<Rightarrow> StreamingTokenizer" where
  "newStreamingTokenizer opts =
     \<lparr> toptions =
         \<lparr> tAllowTrailingCommas =
             nullish (argLlmMode opts) (nullish (argAllowTrailingCommas opts) False),
           tAllowUnquotedKeys =
             nullish (argLlmMode opts) (nullish (argAllowUnquotedKeys opts) False),
           tAllowSingleQuotes =
             nullish (argLlmMode opts) (nullish (argAllowSingleQuotes opts) False),
           tLlmMode = nullish (argLlmMode opts) False \<rparr>,
       buffer = [], position = 0, inString = False, stringQuote = None,
       tokens = [], expectingKey = False \<rparr>"

definition tokenizerReset :: "StreamingTokenizer \<Rightarrow> StreamingTokenizer" where
  "tokenizerReset t =
     t\<lparr> buffer := [], position := 0, inString := False, stringQuote := None,
        tokens := [], expectingKey := False \<rparr>"

definition setExpectingKey :: "bool \<Rightarrow> StreamingTokenizer \<Rightarrow> StreamingTokenizer" where
  "setExpectingKey b t = t\<lparr> expectingKey := b \<rparr>"

subsection \<open>Character classes\<close>

definition isLower :: "char \<Rightarrow> bool" where
  "isLower c = (97 \<le> (of_char c :: nat) \<and> (of_char c :: nat) \<le> 122)"

definition isUpper :: "char \<Rightarrow> bool" where
  "isUpper c = (65 \<le> (of_char c :: nat) \<and> (of_char c :: nat) \<le> 90)"

text \<open>\<open>NUMBER_START = /[-0-9]/\<close>, \<open>NUMBER_CHAR = /[-+0-9.eE]/\<close>.\<close>

definition isNumberStart :: "char \<Rightarrow> bool" where
  "isNumberStart c = (c = CHR ''-'' \<or> isDigit c)"

definition isNumberChar :: "char \<Rightarrow> bool" where
  "isNumberChar c =
     (c = CHR ''-'' \<or> c = CHR ''+'' \<or> isDigit c \<or> c = CHR ''.'' \<or> c = CHR ''e'' \<or> c = CHR ''E'')"

text \<open>\<open>UNQUOTED_KEY_CHAR = /[a-zA-Z0-9_$]/\<close> and the class \<open>/[a-zA-Z0-9_]/\<close>.\<close>

definition isWordChar :: "char \<Rightarrow> bool" where
  "isWordChar c = (isLower c \<or> isUpper c \<or> isDigit c \<or> c = CHR ''_'')"

definition isUnquotedKeyChar :: "char \<Rightarrow> bool" where
  "isUnquotedKeyChar c = (isWordChar c \<or> c = CHR ''$'')"

definition toLowerChar :: "char \<Rightarrow> char" where
  "toLowerChar c = (if isUpper c then char_of ((of_char c :: nat) + 32) else c)"

text \<open>\<open>s.trim()\<close>.\<close>

definition trim :: "string \<Rightarrow> string" where
  "trim s = rev (dropWhile isWhitespace (rev (dropWhile isWhitespace s)))"

text \<open>
  \<open>parseFloat\<close> on a lexeme made of the characters \<open>-+0-9.eE\<close>: an optional sign, digits
  with an optional fraction, and an exponent if one is complete; what follows is ignored.
  \<open>None\<close> is \<open>NaN\<close>.
\<close>

definition scale10 :: "rat \<Rightarrow> int \<Rightarrow> rat" where
  "scale10 m e = (if e \<ge> 0 then m * 10 ^ nat e else m / 10 ^ nat (- e))"

definition parseFloat :: "string \<Rightarrow> rat option" where
  "parseFloat s =
     (let neg = (s \<noteq> [] \<and> hd s = CHR ''-'');
          r1 = (if s \<noteq> [] \<and> (hd s = CHR ''-'' \<or> hd s = CHR ''+'') then tl s else s);
          ip = takeWhile isDigit r1;
          r2 = dropWhile isDigit r1;
          dot = (r2 \<noteq> [] \<and> hd r2 = CHR ''.'');
          fp = (if dot then takeWhile isDigit (tl r2) else []);
          r3 = (if dot then dropWhile isDigit (tl r2) else r2);
          hasE = (r3 \<noteq> [] \<and> (hd r3 = CHR ''e'' \<or> hd r3 = CHR ''E''));
          r4 = (if hasE then tl r3 else []);
          eneg = (r4 \<noteq> [] \<and> hd r4 = CHR ''-'');
          r5 = (if r4 \<noteq> [] \<and> (hd r4 = CHR ''-'' \<or> hd r4 = CHR ''+'') then tl r4 else r4);
          ed = takeWhile isDigit r5;
          ex = (if eneg then - int (digitsVal ed) else int (digitsVal ed));
          m = scale10 (of_nat (digitsVal (ip @ fp))) (ex - int (length fp))
      in if ip = [] \<and> fp = [] then None
         else Some (if neg then - m else m))"

subsection \<open>Lexemes\<close>

definition pushToken ::
  "TokenType \<Rightarrow> json \<Rightarrow> string \<Rightarrow> nat \<Rightarrow> StreamingTokenizer \<Rightarrow> StreamingTokenizer" where
  "pushToken ty v r pos t =
     t\<lparr> tokens := tokens t @
          [\<lparr> ttype = ty, tvalue = v, raw = r, tposition = pos, isPartial = False \<rparr>] \<rparr>"

definition pushErrorToken :: "string \<Rightarrow> nat \<Rightarrow> StreamingTokenizer \<Rightarrow> StreamingTokenizer" where
  "pushErrorToken msg pos t =
     t\<lparr> tokens := tokens t @
          [\<lparr> ttype = TokError, tvalue = JStr msg,
             raw = (if pos < length (buffer t) then [buffer t ! pos] else []),
             tposition = pos, isPartial = False \<rparr>],
        position := position t + 1 \<rparr>"

definition getEscapedChar :: "char \<Rightarrow> char" where
  "getEscapedChar c =
     (if c = CHR ''n'' then char_of (10::nat)
      else if c = CHR ''r'' then char_of (13::nat)
      else if c = CHR ''t'' then char_of (9::nat)
      else if c = CHR ''b'' then char_of (8::nat)
      else if c = CHR ''f'' then char_of (12::nat)
      else c)"

fun unescapeString :: "string \<Rightarrow> string" where
  "unescapeString (c # d # cs) =
     (if c = CHR 0x5C then getEscapedChar d # unescapeString cs
      else c # unescapeString (d # cs))"
| "unescapeString cs = cs"

definition skipWhitespace :: "StreamingTokenizer \<Rightarrow> StreamingTokenizer" where
  "skipWhitespace t =
     t\<lparr> position := position t + length (takeWhile isWhitespace (drop (position t) (buffer t))) \<rparr>"

text \<open>
  The loop of \<open>processString\<close> over the characters after the opening quote, with its
  variables \<open>value\<close>, \<open>raw\<close> and \<open>escaped\<close>. It returns the value, the raw text and the
  characters left after the closing quote, or \<open>None\<close> when the buffer ends first.
\<close>

fun scanString ::
  "char \<Rightarrow> string \<Rightarrow> string \<Rightarrow> bool \<Rightarrow> string \<Rightarrow> (string \<times> string \<times> string) option" where
  "scanString quote val rw escaped [] = None"
| "scanString quote val rw escaped (c # cs) =
     (if escaped then scanString quote (val @ [getEscapedChar c]) (rw @ [c]) False cs
      else if c = CHR 0x5C then scanString quote val (rw @ [c]) True cs
      else if c = quote then Some (val, rw @ [c], cs)
      else scanString quote (val @ [c]) (rw @ [c]) False cs)"

definition processString :: "char \<Rightarrow> StreamingTokenizer \<Rightarrow> StreamingTokenizer \<times> bool" where
  "processString quote t =
     (let startPos = position t in
      case scanString quote [] [quote] False (drop (startPos + 1) (buffer t)) of
        Some (val, rw, rest) \<Rightarrow>
          (let t1 = t\<lparr> position := length (buffer t) - length rest \<rparr>;
               tokenType = (if expectingKey t then TokKey else TokString);
               t2 = pushToken tokenType (JStr val) rw startPos t1
           in (if tokenType = TokKey then t2\<lparr> expectingKey := False \<rparr> else t2, True))
      | None \<Rightarrow>
          (t\<lparr> position := startPos, inString := True, stringQuote := Some quote \<rparr>, False))"

definition processNumber :: "StreamingTokenizer \<Rightarrow> StreamingTokenizer \<times> bool" where
  "processNumber t =
     (let startPos = position t;
          rw = takeWhile isNumberChar (drop startPos (buffer t));
          t1 = t\<lparr> position := startPos + length rw \<rparr>
      in if position t1 \<ge> length (buffer t) then (t, False)
         else if rw \<noteq> [] \<and> last rw \<in> set ''eE.-+'' then (t, False)
         else (case parseFloat rw of
                 None \<Rightarrow> (pushErrorToken (''Invalid number: '' @ rw) startPos t1, True)
               | Some x \<Rightarrow> (pushToken TokNumber (JNum x) rw startPos t1, True)))"

definition keywordTable :: "(string \<times> TokenType \<times> json) list" where
  "keywordTable =
     [(''true'', TokBoolean, JBool True),
      (''false'', TokBoolean, JBool False),
      (''null'', TokNull, JNull)]"

definition processUnquotedKey :: "StreamingTokenizer \<Rightarrow> StreamingTokenizer \<times> bool" where
  "processUnquotedKey t =
     (let startPos = position t;
          key = takeWhile isUnquotedKeyChar (drop startPos (buffer t));
          t1 = t\<lparr> position := startPos + length key \<rparr>
      in if key \<noteq> [] then
           (if position t1 \<ge> length (buffer t)
               \<or> buffer t ! position t1 = CHR '':''
               \<or> isWhitespace (buffer t ! position t1)
            then ((pushToken TokKey (JStr key) key startPos t1)\<lparr> expectingKey := False \<rparr>, True)
            else if position t1 \<ge> length (buffer t) then (t, False)
            else ((pushToken TokKey (JStr key) key startPos t1)\<lparr> expectingKey := False \<rparr>, True))
         else (t1, False))"

definition processKeyword :: "StreamingTokenizer \<Rightarrow> StreamingTokenizer \<times> bool" where
  "processKeyword t =
     (let startPos = position t;
          rest = drop startPos (buffer t)
      in case find (\<lambda>(kw, ty, v). startsWith rest kw \<and>
                      \<not> (length kw < length rest \<and> isWordChar (rest ! length kw))) keywordTable of
           Some (kw, ty, v) \<Rightarrow>
             (pushToken ty v kw startPos (t\<lparr> position := startPos + length kw \<rparr>), True)
         | None \<Rightarrow>
             if startPos + 4 \<ge> length (buffer t)
                \<and> list_ex (\<lambda>(kw, ty, v). startsWith kw rest \<and> length rest < length kw) keywordTable
             then (t, False)
             else if tAllowUnquotedKeys (toptions t) \<and> expectingKey t then processUnquotedKey t
             else (pushErrorToken (''Invalid keyword at position '' @ showNat startPos) startPos t,
                   True))"

definition processNextToken :: "StreamingTokenizer \<Rightarrow> StreamingTokenizer \<times> bool" where
  "processNextToken t0 =
     (let t = skipWhitespace t0 in
      if position t \<ge> length (buffer t) then (t, False)
      else
        (let c = buffer t ! position t;
             startPos = position t;
             t1 = t\<lparr> position := position t + 1 \<rparr>
         in if c = CHR ''{'' then
              ((pushToken TokObjectStart JNull [c] startPos t1)\<lparr> expectingKey := True \<rparr>, True)
            else if c = CHR ''}'' then
              ((pushToken TokObjectEnd JNull [c] startPos t1)\<lparr> expectingKey := False \<rparr>, True)
            else if c = CHR ''['' then
              ((pushToken TokArrayStart JNull [c] startPos t1)\<lparr> expectingKey := False \<rparr>, True)
            else if c = CHR '']'' then
              ((pushToken TokArrayEnd JNull [c] startPos t1)\<lparr> expectingKey := False \<rparr>, True)
            else if c = CHR '':'' then
              ((pushToken TokColon JNull [c] startPos t1)\<lparr> expectingKey := False \<rparr>, True)
            else if c = CHR '','' then
              (pushToken TokComma JNull [c] startPos t1, True)
            else if c = CHR 0x22 \<or> c = CHR 0x27 then
              (if c = CHR 0x27 \<and> \<not> tAllowSingleQuotes (toptions t)
               then (pushErrorToken (''Unexpected character: '' @ [c]) startPos t, True)
               else processString c t)
            else if isNumberStart c then processNumber t
            else if c = CHR ''t'' \<or> c = CHR ''f'' \<or> c = CHR ''n'' then processKeyword t
            else if tAllowUnquotedKeys (toptions t) \<and> expectingKey t \<and> isUnquotedKeyChar c
              then processUnquotedKey t
            else if tLlmMode (toptions t) then (t1, True)
            else (pushErrorToken (''Unexpected character: '' @ [c]) startPos t, True)))"

text \<open>
  The loop of \<open>feed\<close>: \<open>while (position < buffer.length) { if (!processNextToken()) break }\<close>.
  It ends because a call that returns true has moved \<open>position\<close> forward.
\<close>

lemma scanString_rest_shorter:
  "scanString quote val rw escaped cs = Some (val', rw', rest) \<Longrightarrow> length rest < length cs"
  by (induction cs arbitrary: val rw escaped) (auto split: if_splits intro: less_SucI)

lemma processString_advances:
  assumes "processString quote t = (t', b)" and "position t < length (buffer t)"
  shows "buffer t' = buffer t \<and> (b \<longrightarrow> position t < position t')"
proof (cases "scanString quote [] [quote] False (drop (position t + 1) (buffer t))")
  case None
  with assms show ?thesis by (auto simp: processString_def)
next
  case (Some r)
  obtain val rw rest where r: "r = (val, rw, rest)" by (cases r) auto
  from Some r have "length rest < length (drop (position t + 1) (buffer t))"
    by (auto dest: scanString_rest_shorter)
  with assms(2) have "position t < length (buffer t) - length rest" by simp
  with assms Some r show ?thesis
    by (auto simp: processString_def pushToken_def Let_def split: if_splits)
qed

lemma processNumber_advances:
  assumes "processNumber t = (t', b)" and "position t < length (buffer t)"
    and "isNumberStart (buffer t ! position t)"
  shows "buffer t' = buffer t \<and> (b \<longrightarrow> position t < position t')"
proof -
  have "isNumberChar (buffer t ! position t)"
    using assms(3) by (auto simp: isNumberStart_def isNumberChar_def)
  with assms(2) have "takeWhile isNumberChar (drop (position t) (buffer t)) \<noteq> []"
    by (cases "drop (position t) (buffer t)") (auto simp: hd_drop_conv_nth [symmetric])
  with assms(1) show ?thesis
    by (auto simp: processNumber_def pushToken_def pushErrorToken_def Let_def
        split: if_splits option.splits)
qed

lemma processUnquotedKey_advances:
  assumes "processUnquotedKey t = (t', b)"
  shows "buffer t' = buffer t \<and> (b \<longrightarrow> position t < position t')"
  using assms
  by (auto simp: processUnquotedKey_def pushToken_def Let_def split: if_splits)

lemma processKeyword_advances:
  assumes "processKeyword t = (t', b)"
  shows "buffer t' = buffer t \<and> (b \<longrightarrow> position t < position t')"
proof (cases "find (\<lambda>(kw, ty, v). startsWith (drop (position t) (buffer t)) kw \<and>
     \<not> (length kw < length (drop (position t) (buffer t))
        \<and> isWordChar (drop (position t) (buffer t) ! length kw))) keywordTable")
  case None
  with assms processUnquotedKey_advances [of t t' b] show ?thesis
    by (auto simp: processKeyword_def pushErrorToken_def Let_def split: if_splits)
next
  case (Some r)
  obtain kw ty v where r: "r = (kw, ty, v)" by (cases r) auto
  from Some r have "(kw, ty, v) \<in> set keywordTable"
    by (auto simp: find_Some_iff in_set_conv_nth)
  then have "0 < length kw" by (auto simp: keywordTable_def)
  with assms Some r show ?thesis
    by (auto simp: processKeyword_def pushToken_def Let_def)
qed

lemma processNextToken_advances:
  assumes "processNextToken t = (t', b)"
  shows "buffer t' = buffer t \<and> (b \<longrightarrow> position t < position t')"
proof -
  define u where "u = skipWhitespace t"
  have u: "buffer u = buffer t" "position t \<le> position u"
    by (simp_all add: u_def skipWhitespace_def)
  show ?thesis
  proof (cases "position u \<ge> length (buffer u)")
    case True
    with assms u show ?thesis by (auto simp: processNextToken_def u_def [symmetric])
  next
    case False
    then have lt: "position u < length (buffer u)" by simp
    from assms False
      processString_advances [of "buffer u ! position u" u t' b, OF _ lt]
      processNumber_advances [of u t' b, OF _ lt]
      processKeyword_advances [of u t' b]
      processUnquotedKey_advances [of u t' b]
    have "buffer t' = buffer u \<and> (b \<longrightarrow> position u < position t')"
      by (auto simp: processNextToken_def u_def [symmetric] Let_def pushToken_def
          pushErrorToken_def split: if_splits)
    with u show ?thesis by auto
  qed
qed

function tokenizeLoop :: "StreamingTokenizer \<Rightarrow> StreamingTokenizer" where
  "tokenizeLoop t =
     (if position t < length (buffer t) then
        (case processNextToken t of
           (t', True) \<Rightarrow> tokenizeLoop t'
         | (t', False) \<Rightarrow> t')
      else t)"
  by pat_completeness auto
termination
proof (relation "measure (\<lambda>t. length (buffer t) - position t)")
  show "wf (measure (\<lambda>t. length (buffer t) - position t))" by simp
next
  fix t t' :: StreamingTokenizer and b
  assume lt: "position t < length (buffer t)"
    and x: "(t', b) = processNextToken t" and b: "b = True"
  from x have "processNextToken t = (t', b)" by simp
  from processNextToken_advances [OF this] b
  have "buffer t' = buffer t" "position t < position t'" by auto
  with lt show "(t', t) \<in> measure (\<lambda>t. length (buffer t) - position t)" by auto
qed

declare tokenizeLoop.simps [simp del]

definition tokenizerFeed :: "StreamingTokenizer \<Rightarrow> string \<Rightarrow> StreamingTokenizer" where
  "tokenizerFeed t chunk =
     (let t1 = tokenizeLoop (t\<lparr> buffer := buffer t @ chunk, tokens := [] \<rparr>)
      in if position t1 > 0
         then t1\<lparr> buffer := drop (position t1) (buffer t1), position := 0 \<rparr>
         else t1)"

text \<open>
  The test of \<open>/^(t(r(u(e)?)?)?|f(a(l(s(e)?)?)?)?|n(u(l(l)?)?)?)$/i\<close>: a non-empty prefix
  of a keyword, letter case ignored.
\<close>

definition isKeywordPrefix :: "string \<Rightarrow> bool" where
  "isKeywordPrefix s =
     (s \<noteq> [] \<and> list_ex (\<lambda>kw. startsWith kw (map toLowerChar s)) [''true'', ''false'', ''null''])"

definition getPartialToken :: "StreamingTokenizer \<Rightarrow> Token option" where
  "getPartialToken t =
     (let remaining = trim (buffer t) in
      if remaining = [] then None
      else
        (let startsWithQuote =
               (hd remaining = CHR 0x22
                \<or> (tAllowSingleQuotes (toptions t) \<and> hd remaining = CHR 0x27))
         in if inString t \<or> startsWithQuote then
              Some \<lparr> ttype = (if expectingKey t then TokPartialKey else TokPartialString),
                     tvalue = JStr (unescapeString
                                (if startsWithQuote then tl remaining else remaining)),
                     raw = remaining, tposition = position t, isPartial = True \<rparr>
            else if isNumberStart (hd remaining) then
              Some \<lparr> ttype = TokPartialNumber, tvalue = JStr remaining,
                     raw = remaining, tposition = position t, isPartial = True \<rparr>
            else if isKeywordPrefix remaining then
              Some \<lparr> ttype = TokPartialString, tvalue = JStr remaining,
                     raw = remaining, tposition = position t, isPartial = True \<rparr>
            else if tAllowUnquotedKeys (toptions t) \<and> expectingKey t
                    \<and> isUnquotedKeyChar (hd remaining) then
              Some \<lparr> ttype = TokPartialKey, tvalue = JStr remaining,
                     raw = remaining, tposition = position t, isPartial = True \<rparr>
            else None))"

section \<open>The parser (class StreamingJSONParser)\<close>

datatype ParserState =
    Initial | InObject | InArray | ExpectingKey | ExpectingColon | ExpectingValue
  | ExpectingCommaOrEnd | Complete | Error

datatype FrameType = FObject | FArray

record StackFrame =
  ftype :: FrameType
  fdata :: json
  currentKey :: "string option"
  fschema :: "JSONSchema option"
  completedKeys :: "string list"
  arrayIndex :: nat

text \<open>
  \<open>ParserOptions\<close> as the caller passes them and as the constructor stores them after
  spreading them over its defaults. The \<open>events\<close> callbacks are caller code and are not
  modelled (no callback is installed).
\<close>

record ParserOptionsArg =
  optSchema :: "JSONSchema option"
  optLlmMode :: "bool option"
  optAllowTrailingCommas :: "bool option"
  optAllowUnquotedKeys :: "bool option"
  optAllowSingleQuotes :: "bool option"
  optMaxDepth :: "int option"

record ParserOptions =
  pschema :: "JSONSchema option"
  llmMode :: bool
  allowTrailingCommas :: bool
  allowUnquotedKeys :: bool
  allowSingleQuotes :: bool
  maxDepth :: int

record ParseResult =
  complete :: bool
  valid :: bool
  data :: "json option"
  completedFields :: "string list"
  pendingFields :: "string list"
  errors :: "ValidationError list"
  depth :: nat
  bytesProcessed :: nat

text \<open>
  The parser object. The stack is in the order of the source array: the root frame
  first, the current frame last. A \<open>Set<string>\<close> is the list of its members in
  insertion order. The private fields \<open>errors\<close> and \<open>bytesProcessed\<close> are renamed, since
  \<open>ParseResult\<close> has fields of the same names.
\<close>

record StreamingJSONParser =
  tokenizer :: StreamingTokenizer
  validator :: "SchemaValidator option"
  options :: ParserOptions
  state :: ParserState
  stack :: "StackFrame list"
  result :: "json option"
  perrors :: "ValidationError list"
  pbytesProcessed :: nat
  completedPaths :: "string list"
  pendingPaths :: "string list"

definition setAdd :: "'a list \<Rightarrow> 'a \<Rightarrow> 'a list" where
  "setAdd xs x = (if x \<in> set xs then xs else xs @ [x])"

definition setDelete :: "'a list \<Rightarrow> 'a \<Rightarrow> 'a list" where
  "setDelete xs x = removeAll x xs"

definition newStreamingJSONParser ::
  "(string \<Rightarrow> string \<Rightarrow> bool) \<Rightarrow> ParserOptionsArg \<Rightarrow> StreamingJSONParser" where
  "newStreamingJSONParser rx arg =
     (let opts = \<lparr> pschema = optSchema arg,
                   llmMode = nullish (optLlmMode arg) False,
                   allowTrailingCommas = nullish (optAllowTrailingCommas arg) False,
                   allowUnquotedKeys = nullish (optAllowUnquotedKeys arg) False,
                   allowSingleQuotes = nullish (optAllowSingleQuotes arg) False,
                   maxDepth = nullish (optMaxDepth arg) 100 \<rparr>
      in \<lparr> tokenizer = newStreamingTokenizer
             \<lparr> argAllowTrailingCommas = Some (allowTrailingCommas opts),
               argAllowUnquotedKeys = Some (allowUnquotedKeys opts),
               argAllowSingleQuotes = Some (allowSingleQuotes opts),
               argLlmMode = Some (llmMode opts) \<rparr>,
           validator = (case pschema opts of
                          Some s \<Rightarrow> Some (newSchemaValidator rx s defaultValidatorOptions)
                        | None \<Rightarrow> None),
           options = opts,
           state = Initial, stack = [], result = None, perrors = [], pbytesProcessed = 0,
           completedPaths = [], pendingPaths = [] \<rparr>)"

text \<open>\<open>createStreamParser(schema, options)\<close> and \<open>createLLMParser(schema, options)\<close>.\<close>

definition createStreamParser ::
  "(string \<Rightarrow> string \<Rightarrow> bool) \<Rightarrow> JSONSchema option \<Rightarrow> ParserOptionsArg \<Rightarrow> StreamingJSONParser" where
  "createStreamParser rx sch arg = newStreamingJSONParser rx (arg\<lparr> optSchema := sch \<rparr>)"

definition createLLMParser ::
  "(string \<Rightarrow> string \<Rightarrow> bool) \<Rightarrow> JSONSchema option \<Rightarrow> ParserOptionsArg \<Rightarrow> StreamingJSONParser" where
  "createLLMParser rx sch arg =
     newStreamingJSONParser rx (arg\<lparr> optSchema := sch, optLlmMode := Some True \<rparr>)"

definition noOptions :: ParserOptionsArg where
  "noOptions = \<lparr> optSchema = None, optLlmMode = None, optAllowTrailingCommas = None,
                 optAllowUnquotedKeys = None, optAllowSingleQuotes = None,
                 optMaxDepth = None \<rparr>"

definition reset :: "StreamingJSONParser \<Rightarrow> StreamingJSONParser" where
  "reset p =
     p\<lparr> tokenizer := tokenizerReset (tokenizer p), state := Initial, stack := [],
        result := None, perrors := [], pbytesProcessed := 0,
        completedPaths := [], pendingPaths := [] \<rparr>"

definition getState :: "StreamingJSONParser \<Rightarrow> ParserState" where
  "getState p = state p"

definition isComplete :: "StreamingJSONParser \<Rightarrow> bool" where
  "isComplete p = (state p = Complete)"

text \<open>\<open>getResult\<close>: \<open>Inl\<close> is the thrown message.\<close>

definition getResult :: "StreamingJSONParser \<Rightarrow> string + json option" where
  "getResult p = (if \<not> isComplete p then Inl ''Parsing is not complete'' else Inr (result p))"

subsection \<open>Control flow\<close>

text \<open>
  What a method call does besides changing the parser: it returns, or it throws an
  \<open>Error\<close> with a message (the parser is then as the throw left it), or it does not
  return because a validator call does not.
\<close>

datatype Outcome =
    Returned StreamingJSONParser
  | Thrown string StreamingJSONParser
  | Diverged

definition andThen :: "Outcome \<Rightarrow> (StreamingJSONParser \<Rightarrow> Outcome) \<Rightarrow> Outcome" where
  "andThen out f = (case out of Returned p \<Rightarrow> f p | Thrown m p \<Rightarrow> Thrown m p | Diverged \<Rightarrow> Diverged)"

definition setState :: "ParserState \<Rightarrow> StreamingJSONParser \<Rightarrow> Outcome" where
  "setState st p = Returned (p\<lparr> state := st \<rparr>)"

definition setError :: "string \<Rightarrow> StreamingJSONParser \<Rightarrow> Outcome" where
  "setError message p =
     (if \<not> llmMode (options p) then Thrown message (p\<lparr> state := Error \<rparr>)
      else Returned (p\<lparr> state := Error \<rparr>))"

subsection \<open>Frames and paths\<close>

definition currentFrame :: "StreamingJSONParser \<Rightarrow> StackFrame option" where
  "currentFrame p = (if stack p = [] then None else Some (last (stack p)))"

text \<open>Writing through the reference \<open>frame\<close> changes the last element of the stack.\<close>

definition updateFrame :: "StackFrame \<Rightarrow> StreamingJSONParser \<Rightarrow> StreamingJSONParser" where
  "updateFrame f p = p\<lparr> stack := butlast (stack p) @ [f] \<rparr>"

text \<open>A key is truthy when it is defined and not the empty string.\<close>

definition truthyKey :: "string option \<Rightarrow> bool" where
  "truthyKey k = (case k of None \<Rightarrow> False | Some s \<Rightarrow> s \<noteq> [])"

fun pathOfStack :: "bool \<Rightarrow> StackFrame list \<Rightarrow> string list" where
  "pathOfStack includeCurrentKey [] = []"
| "pathOfStack includeCurrentKey (frame # frames) =
     (if ftype frame = FObject \<and> truthyKey (currentKey frame) then
        (if frames \<noteq> [] \<or> includeCurrentKey then [the (currentKey frame)] else [])
      else if ftype frame = FArray then [showNat (arrayIndex frame)]
      else [])
     @ pathOfStack includeCurrentKey frames"

definition getCurrentPath :: "bool \<Rightarrow> StreamingJSONParser \<Rightarrow> string list" where
  "getCurrentPath includeCurrentKey p = pathOfStack includeCurrentKey (stack p)"

definition objectAssign :: "json \<Rightarrow> string \<Rightarrow> json \<Rightarrow> json" where
  "objectAssign d k x = (case d of JObj kvs \<Rightarrow> JObj (recordSet kvs k x) | _ \<Rightarrow> d)"

definition arrayPush :: "json \<Rightarrow> json \<Rightarrow> json" where
  "arrayPush d x = (case d of JArr xs \<Rightarrow> JArr (xs @ [x]) | _ \<Rightarrow> d)"

subsection \<open>Values and containers\<close>

text \<open>
  The private method \<open>validateValue(value, path)\<close> of the parser. The first argument of
  this and of the methods below is the bound handed to \<open>validate\<close>.
\<close>

definition parserValidateValue ::
  "nat \<Rightarrow> json \<Rightarrow> string list \<Rightarrow> StreamingJSONParser \<Rightarrow> Outcome" where
  "parserValidateValue n x pth p =
     (case validator p of
        None \<Rightarrow> Returned p
      | Some v \<Rightarrow>
          (case validate n v x pth of
             None \<Rightarrow> Diverged
           | Some es \<Rightarrow> Returned (p\<lparr> perrors := perrors p @ es \<rparr>)))"

text \<open>The part that \<open>startObject\<close> and \<open>startArray\<close> share, with the frame type as argument.\<close>

definition startContainer :: "FrameType \<Rightarrow> StreamingJSONParser \<Rightarrow> Outcome" where
  "startContainer ft p =
     (if int (length (stack p)) \<ge> maxDepth (options p) then setError ''Maximum depth exceeded'' p
      else
        (let pth = getCurrentPath False p in
         case (case validator p of None \<Rightarrow> Some None | Some v \<Rightarrow> getSchemaAtPath v pth) of
           None \<Rightarrow> Diverged
         | Some sch \<Rightarrow>
             (case (case validator p of
                      None \<Rightarrow> Some True
                    | Some v \<Rightarrow> canBeType v (if ft = FObject then TObject else TArray) pth) of
                None \<Rightarrow> Diverged
              | Some ok \<Rightarrow>
                  (let p1 = (if \<not> ok then
                               p\<lparr> perrors := perrors p @
                                    [\<lparr> path = pth, keyword = ''type'',
                                       schema = (case sch of Some s \<Rightarrow> s | None \<Rightarrow> emptySchema),
                                       value = None \<rparr>] \<rparr>
                             else p);
                       frame = \<lparr> ftype = ft,
                                 fdata = (if ft = FObject then JObj [] else JArr []),
                                 currentKey = None, fschema = sch,
                                 completedKeys = [], arrayIndex = 0 \<rparr>
                   in Returned (p1\<lparr> stack := stack p1 @ [frame],
                                    pendingPaths := setAdd (pendingPaths p1) (join ''.'' pth) \<rparr>)))))"

definition startObject :: "StreamingJSONParser \<Rightarrow> Outcome" where
  "startObject p = startContainer FObject p"

definition startArray :: "StreamingJSONParser \<Rightarrow> Outcome" where
  "startArray p = startContainer FArray p"

definition assignValue :: "json \<Rightarrow> StreamingJSONParser \<Rightarrow> Outcome" where
  "assignValue x p =
     (case currentFrame p of
        None \<Rightarrow> Returned (p\<lparr> result := Some x \<rparr>)
      | Some frame \<Rightarrow>
          if ftype frame = FObject then
            (if \<not> truthyKey (currentKey frame) then setError ''No current key for value'' p
             else
               (let k = the (currentKey frame);
                    p1 = updateFrame (frame\<lparr> fdata := objectAssign (fdata frame) k x,
                                             completedKeys := setAdd (completedKeys frame) k \<rparr>) p;
                    pth = getCurrentPath False p1 @ [k];
                    p2 = p1\<lparr> completedPaths := setAdd (completedPaths p1) (join ''.'' pth) \<rparr>
                in Returned (updateFrame ((last (stack p2))\<lparr> currentKey := None \<rparr>) p2)))
          else
            Returned (updateFrame (frame\<lparr> fdata := arrayPush (fdata frame) x,
                                           arrayIndex := arrayIndex frame + 1 \<rparr>) p))"

text \<open>
  The part that \<open>endObject\<close> and \<open>endArray\<close> share. \<open>stack.pop()\<close> removes the frame before
  its type is looked at.
\<close>

definition endContainer :: "nat \<Rightarrow> FrameType \<Rightarrow> string \<Rightarrow> StreamingJSONParser \<Rightarrow> Outcome" where
  "endContainer n ft mismatch p =
     (if stack p = [] then setError mismatch p
      else
        (let frame = last (stack p);
             p1 = p\<lparr> stack := butlast (stack p) \<rparr>
         in if ftype frame \<noteq> ft then setError mismatch p1
            else
              (let pth = getCurrentPath False p1;
                   pathStr = join ''.'' pth;
                   p2 = p1\<lparr> completedPaths := setAdd (completedPaths p1) pathStr,
                            pendingPaths := setDelete (pendingPaths p1) pathStr \<rparr>
               in andThen (parserValidateValue n (fdata frame) pth p2) (\<lambda>p3.
                  andThen (assignValue (fdata frame) p3) (\<lambda>p4.
                    if stack p4 = [] then setState Complete p4
                    else setState ExpectingCommaOrEnd p4)))))"

definition endObject :: "nat \<Rightarrow> StreamingJSONParser \<Rightarrow> Outcome" where
  "endObject n p = endContainer n FObject ''Mismatched }'' p"

definition endArray :: "nat \<Rightarrow> StreamingJSONParser \<Rightarrow> Outcome" where
  "endArray n p = endContainer n FArray ''Mismatched ]'' p"

definition pushArrayValue :: "nat \<Rightarrow> json \<Rightarrow> StreamingJSONParser \<Rightarrow> Outcome" where
  "pushArrayValue n x p =
     (case currentFrame p of
        None \<Rightarrow> setError ''Not in array'' p
      | Some frame \<Rightarrow>
          if ftype frame \<noteq> FArray then setError ''Not in array'' p
          else
            (let pth = getCurrentPath False p @ [showNat (arrayIndex frame)];
                 pathStr = join ''.'' pth;
                 p1 = updateFrame (frame\<lparr> fdata := arrayPush (fdata frame) x \<rparr>) p;
                 p2 = p1\<lparr> completedPaths := setAdd (completedPaths p1) pathStr,
                          pendingPaths := setDelete (pendingPaths p1) pathStr \<rparr>
             in andThen (parserValidateValue n x pth p2) (\<lambda>p3.
                  Returned (updateFrame
                    ((last (stack p3))\<lparr> arrayIndex := arrayIndex (last (stack p3)) + 1 \<rparr>) p3))))"

definition setValue :: "nat \<Rightarrow> json \<Rightarrow> StreamingJSONParser \<Rightarrow> Outcome" where
  "setValue n x p =
     (case currentFrame p of
        None \<Rightarrow> andThen (Returned (p\<lparr> result := Some x \<rparr>)) (parserValidateValue n x [])
      | Some frame \<Rightarrow>
          if ftype frame = FObject then
            (if \<not> truthyKey (currentKey frame) then setError ''No current key for value'' p
             else
               (let k = the (currentKey frame);
                    pth = getCurrentPath False p @ [k];
                    pathStr = join ''.'' pth;
                    p1 = updateFrame (frame\<lparr> fdata := objectAssign (fdata frame) k x,
                                             completedKeys := setAdd (completedKeys frame) k \<rparr>) p;
                    p2 = p1\<lparr> completedPaths := setAdd (completedPaths p1) pathStr,
                             pendingPaths := setDelete (pendingPaths p1) pathStr \<rparr>
                in andThen (parserValidateValue n x pth p2) (\<lambda>p3.
                     Returned (updateFrame ((last (stack p3))\<lparr> currentKey := None \<rparr>) p3))))
          else pushArrayValue n x p)"

subsection \<open>The state machine\<close>

definition isScalarToken :: "TokenType \<Rightarrow> bool" where
  "isScalarToken ty = (ty = TokString \<or> ty = TokNumber \<or> ty = TokBoolean \<or> ty = TokNull)"

text \<open>\<open>token.value as string\<close> and \<open>String(token.value)\<close> for a token that carries a string.\<close>

definition asString :: "json \<Rightarrow> string" where
  "asString x = (case x of JStr s \<Rightarrow> s | _ \<Rightarrow> [])"

definition handleInitialState :: "nat \<Rightarrow> Token \<Rightarrow> StreamingJSONParser \<Rightarrow> Outcome" where
  "handleInitialState n token p =
     (if ttype token = TokObjectStart then andThen (startObject p) (setState ExpectingKey)
      else if ttype token = TokArrayStart then andThen (startArray p) (setState InArray)
      else if isScalarToken (ttype token) then
        andThen (parserValidateValue n (tvalue token) [] (p\<lparr> result := Some (tvalue token) \<rparr>))
          (setState Complete)
      else setError (''Unexpected token at start: '' @ tokenTypeName (ttype token)) p)"

definition handleObjectState :: "nat \<Rightarrow> Token \<Rightarrow> StreamingJSONParser \<Rightarrow> Outcome" where
  "handleObjectState n token p =
     (case currentFrame p of
        None \<Rightarrow> setError ''Invalid state: not in object'' p
      | Some frame \<Rightarrow>
          if ftype frame \<noteq> FObject then setError ''Invalid state: not in object'' p
          else if ttype token = TokKey \<or> ttype token = TokString then
            (let p1 = updateFrame (frame\<lparr> currentKey := Some (asString (tvalue token)) \<rparr>) p
             in Returned (p1\<lparr> pendingPaths :=
                               setAdd (pendingPaths p1) (join ''.'' (getCurrentPath False p1)),
                             state := ExpectingColon \<rparr>))
          else if ttype token = TokObjectEnd then endObject n p
          else if ttype token = TokComma then
            Returned (p\<lparr> state := ExpectingKey,
                          tokenizer := setExpectingKey True (tokenizer p) \<rparr>)
          else setError (''Expected key or }, got '' @ tokenTypeName (ttype token)) p)"

definition handleValueState :: "nat \<Rightarrow> Token \<Rightarrow> StreamingJSONParser \<Rightarrow> Outcome" where
  "handleValueState n token p =
     (if ttype token = TokObjectStart then andThen (startObject p) (setState ExpectingKey)
      else if ttype token = TokArrayStart then andThen (startArray p) (setState InArray)
      else if isScalarToken (ttype token) then
        andThen (setValue n (tvalue token) p) (setState ExpectingCommaOrEnd)
      else if ttype token = TokObjectEnd then
        (if llmMode (options p) \<and> currentFrame p \<noteq> None then
           (if ftype (the (currentFrame p)) = FObject then endObject n p else Returned p)
         else setError ''Unexpected } when expecting value'' p)
      else if ttype token = TokArrayEnd then
        (if llmMode (options p) \<and> currentFrame p \<noteq> None then
           (if ftype (the (currentFrame p)) = FArray then endArray n p else Returned p)
         else setError ''Unexpected ] when expecting value'' p)
      else setError (''Unexpected token when expecting value: '' @ tokenTypeName (ttype token)) p)"

definition handleColonState :: "nat \<Rightarrow> Token \<Rightarrow> StreamingJSONParser \<Rightarrow> Outcome" where
  "handleColonState n token p =
     (if ttype token = TokColon then setState ExpectingValue p
      else if llmMode (options p) then handleValueState n token (p\<lparr> state := ExpectingValue \<rparr>)
      else setError (''Expected :, got '' @ tokenTypeName (ttype token)) p)"

definition handleArrayState :: "nat \<Rightarrow> Token \<Rightarrow> StreamingJSONParser \<Rightarrow> Outcome" where
  "handleArrayState n token p =
     (case currentFrame p of
        None \<Rightarrow> setError ''Invalid state: not in array'' p
      | Some frame \<Rightarrow>
          if ftype frame \<noteq> FArray then setError ''Invalid state: not in array'' p
          else if ttype token = TokObjectStart then andThen (startObject p) (setState ExpectingKey)
          else if ttype token = TokArrayStart then andThen (startArray p) (setState InArray)
          else if ttype token = TokArrayEnd then endArray n p
          else if isScalarToken (ttype token) then
            andThen (pushArrayValue n (tvalue token) p) (setState ExpectingCommaOrEnd)
          else if ttype token = TokComma then
            (if allowTrailingCommas (options p) \<or> llmMode (options p) then Returned p
             else setError ''Unexpected comma in array'' p)
          else setError (''Unexpected token in array: '' @ tokenTypeName (ttype token)) p)"

definition handleCommaOrEndState :: "nat \<Rightarrow> Token \<Rightarrow> StreamingJSONParser \<Rightarrow> Outcome" where
  "handleCommaOrEndState n token p =
     (case currentFrame p of
        None \<Rightarrow> setState Complete p
      | Some frame \<Rightarrow>
          if ttype token = TokComma then
            (if ftype frame = FObject then
               Returned (p\<lparr> state := ExpectingKey,
                             tokenizer := setExpectingKey True (tokenizer p) \<rparr>)
             else setState InArray p)
          else if ttype token = TokObjectEnd then
            (if ftype frame = FObject then endObject n p
             else setError ''Unexpected } in array'' p)
          else if ttype token = TokArrayEnd then
            (if ftype frame = FArray then endArray n p
             else setError ''Unexpected ] in object'' p)
          else if llmMode (options p) then
            (if ftype frame = FObject then handleObjectState n token (p\<lparr> state := ExpectingKey \<rparr>)
             else handleArrayState n token (p\<lparr> state := InArray \<rparr>))
          else setError (''Expected , or end of container, got ''
                          @ tokenTypeName (ttype token)) p)"

definition handlePartialToken :: "Token \<Rightarrow> StreamingJSONParser \<Rightarrow> StreamingJSONParser" where
  "handlePartialToken token p =
     (let pth = getCurrentPath False p in
      if ttype token = TokPartialString \<or> ttype token = TokPartialNumber then
        (case currentFrame p of
           None \<Rightarrow> p
         | Some frame \<Rightarrow>
             if ftype frame = FObject \<and> truthyKey (currentKey frame) then
               p\<lparr> pendingPaths :=
                    setAdd (pendingPaths p) (join ''.'' (pth @ [the (currentKey frame)])) \<rparr>
             else if ftype frame = FArray then
               p\<lparr> pendingPaths :=
                    setAdd (pendingPaths p) (join ''.'' (pth @ [showNat (arrayIndex frame)])) \<rparr>
             else p)
      else p)"

definition handleError :: "Token \<Rightarrow> StreamingJSONParser \<Rightarrow> Outcome" where
  "handleError token p =
     (if llmMode (options p) then
        Returned (p\<lparr> perrors := perrors p @
                       [\<lparr> path = getCurrentPath False p, keyword = ''syntax'',
                          schema = (case pschema (options p) of Some s \<Rightarrow> s | None \<Rightarrow> emptySchema),
                          value = None \<rparr>] \<rparr>)
      else setError (asString (tvalue token)) p)"

text \<open>
  \<open>processToken\<close> and \<open>tryRecover\<close> call each other: \<open>tryRecover\<close> runs only in state
  \<open>Error\<close> and calls \<open>processToken\<close> after leaving that state.
\<close>

function processToken :: "nat \<Rightarrow> Token \<Rightarrow> StreamingJSONParser \<Rightarrow> Outcome"
  and tryRecover :: "nat \<Rightarrow> Token \<Rightarrow> StreamingJSONParser \<Rightarrow> Outcome" where
  "processToken n token p =
     (if ttype token = TokError then handleError token p
      else
        (case state p of
           Initial \<Rightarrow> handleInitialState n token p
         | InObject \<Rightarrow> handleObjectState n token p
         | ExpectingKey \<Rightarrow> handleObjectState n token p
         | ExpectingColon \<Rightarrow> handleColonState n token p
         | ExpectingValue \<Rightarrow> handleValueState n token p
         | InArray \<Rightarrow> handleArrayState n token p
         | ExpectingCommaOrEnd \<Rightarrow> handleCommaOrEndState n token p
         | Complete \<Rightarrow> Returned p
         | Error \<Rightarrow> if llmMode (options p) then tryRecover n token p else Returned p))"
| "tryRecover n token p =
     (if ttype token = TokObjectStart then andThen (startObject p) (setState ExpectingKey)
      else if ttype token = TokArrayStart then andThen (startArray p) (setState InArray)
      else if ttype token = TokObjectEnd \<or> ttype token = TokArrayEnd then
        (if stack p \<noteq> [] then processToken n token (p\<lparr> state := ExpectingCommaOrEnd \<rparr>)
         else Returned p)
      else Returned p)"
  by pat_completeness auto
termination
  by (relation "measure (\<lambda>x. case x of
         Inl (n, token, p) \<Rightarrow> (if state p = Error then 2 else 0)
       | Inr (n, token, p) \<Rightarrow> 1)") auto

declare processToken.simps [simp del] tryRecover.simps [simp del]

text \<open>The loop \<open>for (const token of tokens) this.processToken(token)\<close>.\<close>

fun processTokens :: "nat \<Rightarrow> Token list \<Rightarrow> StreamingJSONParser \<Rightarrow> Outcome" where
  "processTokens n [] p = Returned p"
| "processTokens n (token # rest) p = andThen (processToken n token p) (processTokens n rest)"

definition getCurrentData :: "StreamingJSONParser \<Rightarrow> json option" where
  "getCurrentData p = (if stack p = [] then result p else Some (fdata (hd (stack p))))"

definition buildResult :: "StreamingJSONParser \<Rightarrow> ParseResult" where
  "buildResult p =
     \<lparr> complete = (state p = Complete),
       valid = (perrors p = []),
       data = getCurrentData p,
       completedFields = completedPaths p,
       pendingFields = pendingPaths p,
       errors = perrors p,
       depth = length (stack p),
       bytesProcessed = pbytesProcessed p \<rparr>"

text \<open>
  \<open>feed(chunk)\<close>. It returns a snapshot, or throws, or does not return; in every case the
  parser object is left changed, and it is part of the outcome.
\<close>

datatype FeedOutcome =
    FeedReturned ParseResult StreamingJSONParser
  | FeedThrown string StreamingJSONParser
  | FeedDiverged

definition feed :: "nat \<Rightarrow> StreamingJSONParser \<Rightarrow> string \<Rightarrow> FeedOutcome" where
  "feed n p chunk =
     (let p1 = p\<lparr> pbytesProcessed := pbytesProcessed p + length chunk \<rparr>;
          p2 = p1\<lparr> tokenizer := setExpectingKey
                  (state p1 = ExpectingKey \<or> (state p1 = Initial \<and> stack p1 = []))
                  (tokenizer p1) \<rparr>;
          p3 = p2\<lparr> tokenizer := tokenizerFeed (tokenizer p2) chunk \<rparr>
      in case processTokens n (tokens (tokenizer p3)) p3 of
           Diverged \<Rightarrow> FeedDiverged
         | Thrown m p4 \<Rightarrow> FeedThrown m p4
         | Returned p4 \<Rightarrow>
             (let p5 = (case getPartialToken (tokenizer p4) of
                          Some partialToken \<Rightarrow> handlePartialToken partialToken p4
                        | None \<Rightarrow> p4)
              in FeedReturned (buildResult p5) p5))"

text \<open>
  Successive calls of \<open>feed\<close> on one parser object. A caller that catches a thrown error
  can go on feeding; the outcomes are collected in order, and the run stops where a
  call does not return.
\<close>

definition parserAfter :: "FeedOutcome \<Rightarrow> StreamingJSONParser option" where
  "parserAfter out =
     (case out of FeedReturned r p \<Rightarrow> Some p | FeedThrown m p \<Rightarrow> Some p | FeedDiverged \<Rightarrow> None)"

fun feedAll :: "nat \<Rightarrow> StreamingJSONParser \<Rightarrow> string list \<Rightarrow> FeedOutcome list" where
  "feedAll n p [] = []"
| "feedAll n p (chunk # chunks) =
     (let out = feed n p chunk in
      out # (case parserAfter out of Some p' \<Rightarrow> feedAll n p' chunks | None \<Rightarrow> []))"

section \<open>JSON texts and their standard parse\<close>

text \<open>
  The grammar of JSON (RFC 8259) as a syntax tree, with every piece of insignificant
  white space kept, so that the text of a tree is determined: \<open>render\<close> gives the text
  and \<open>valueOf\<close> the value that \<open>JSON.parse\<close> returns for it. A text is valid JSON when
  it is \<open>render c @ w\<close> for a well-formed tree \<open>c\<close> and white space \<open>w\<close>. Escapes of the
  form \<open>\uXXXX\<close> are not part of this model of the grammar.
\<close>

datatype strItem = Plain char | Escape char

definition isJsonWs :: "char \<Rightarrow> bool" where
  "isJsonWs c = (c \<in> set [char_of (32::nat), char_of (9::nat), char_of (10::nat), char_of (13::nat)])"

definition validStrItem :: "strItem \<Rightarrow> bool" where
  "validStrItem i =
     (case i of
        Plain c \<Rightarrow> c \<noteq> CHR 0x22 \<and> c \<noteq> CHR 0x5C \<and> 32 \<le> (of_char c :: nat)
      | Escape c \<Rightarrow> c \<in> set ([CHR 0x22, CHR 0x5C] @ ''/bfnrt''))"

fun strItemText :: "strItem \<Rightarrow> string" where
  "strItemText (Plain c) = [c]"
| "strItemText (Escape c) = [CHR 0x5C, c]"

fun strItemChar :: "strItem \<Rightarrow> char" where
  "strItemChar (Plain c) = c"
| "strItemChar (Escape c) =
     (if c = CHR ''b'' then char_of (8::nat)
      else if c = CHR ''f'' then char_of (12::nat)
      else if c = CHR ''n'' then char_of (10::nat)
      else if c = CHR ''r'' then char_of (13::nat)
      else if c = CHR ''t'' then char_of (9::nat)
      else c)"

definition strText :: "strItem list \<Rightarrow> string" where
  "strText its = CHR 0x22 # concat (map strItemText its) @ [CHR 0x22]"

definition strValue :: "strItem list \<Rightarrow> string" where
  "strValue its = map strItemChar its"

text \<open>
  A number: sign, integer digits, optional fraction digits, optional exponent (the
  letter, the sign as written, the digits).
\<close>

record numLex =
  negative :: bool
  intDigits :: string
  fracDigits :: "string option"
  exponent :: "(char \<times> string \<times> string) option"

definition validNumLex :: "numLex \<Rightarrow> bool" where
  "validNumLex n =
     (intDigits n \<noteq> [] \<and> list_all isDigit (intDigits n)
      \<and> (if length (intDigits n) > 1 then hd (intDigits n) \<noteq> CHR ''0'' else True)
      \<and> (case fracDigits n of None \<Rightarrow> True | Some f \<Rightarrow> f \<noteq> [] \<and> list_all isDigit f)
      \<and> (case exponent n of
            None \<Rightarrow> True
          | Some (e, sg, ds) \<Rightarrow>
              (e = CHR ''e'' \<or> e = CHR ''E'') \<and> (sg = [] \<or> sg = ''+'' \<or> sg = ''-'')
              \<and> ds \<noteq> [] \<and> list_all isDigit ds))"

definition numLexText :: "numLex \<Rightarrow> string" where
  "numLexText n =
     (if negative n then ''-'' else []) @ intDigits n
     @ (case fracDigits n of None \<Rightarrow> [] | Some f \<Rightarrow> CHR ''.'' # f)
     @ (case exponent n of None \<Rightarrow> [] | Some (e, sg, ds) \<Rightarrow> e # sg @ ds)"

definition numLexValue :: "numLex \<Rightarrow> rat" where
  "numLexValue n =
     (let f = (case fracDigits n of None \<Rightarrow> [] | Some f \<Rightarrow> f);
          ex = (case exponent n of
                  None \<Rightarrow> 0
                | Some (e, sg, ds) \<Rightarrow> if sg = ''-'' then - int (digitsVal ds) else int (digitsVal ds));
          m = scale10 (of_nat (digitsVal (intDigits n @ f))) (ex - int (length f))
      in if negative n then - m else m)"

datatype literal = LitTrue | LitFalse | LitNull

definition literalText :: "literal \<Rightarrow> string" where
  "literalText l = (case l of LitTrue \<Rightarrow> ''true'' | LitFalse \<Rightarrow> ''false'' | LitNull \<Rightarrow> ''null'')"

definition literalValue :: "literal \<Rightarrow> json" where
  "literalValue l = (case l of LitTrue \<Rightarrow> JBool True | LitFalse \<Rightarrow> JBool False | LitNull \<Rightarrow> JNull)"

text \<open>
  The tree. The first field of every node is the white space before its first
  character. In \<open>CArr w es w'\<close> each element comes with the white space before the comma
  that precedes it (unused for the first element), and \<open>w'\<close> stands before \<open>]\<close>. In
  \<open>CObj w ms w'\<close> a member is: white space before the preceding comma (unused for the
  first), white space before the key, the key, white space before the colon, the value.
\<close>

datatype cst =
    CLit string literal
  | CNum string numLex
  | CStr string "strItem list"
  | CArr string "(string \<times> cst) list" string
  | CObj string "(string \<times> string \<times> strItem list \<times> string \<times> cst) list" string

datatype lexeme =
    LBrace | RBrace | LBrack | RBrack | LColon | LComma
  | LKey "strItem list" | LStr "strItem list" | LNum numLex | LLit literal

definition lexemeText :: "lexeme \<Rightarrow> string" where
  "lexemeText l =
     (case l of
        LBrace \<Rightarrow> ''{'' | RBrace \<Rightarrow> ''}'' | LBrack \<Rightarrow> ''['' | RBrack \<Rightarrow> '']''
      | LColon \<Rightarrow> '':'' | LComma \<Rightarrow> '',''
      | LKey its \<Rightarrow> strText its | LStr its \<Rightarrow> strText its
      | LNum n \<Rightarrow> numLexText n | LLit t \<Rightarrow> literalText t)"

text \<open>The lexemes of a tree in order, each with the white space before it.\<close>

fun lexemesOf :: "cst \<Rightarrow> (string \<times> lexeme) list" where
  "lexemesOf (CLit w t) = [(w, LLit t)]"
| "lexemesOf (CNum w n) = [(w, LNum n)]"
| "lexemesOf (CStr w its) = [(w, LStr its)]"
| "lexemesOf (CArr w es w') =
     (w, LBrack) # tl (concat (map (\<lambda>(wc, e). (wc, LComma) # lexemesOf e) es)) @ [(w', RBrack)]"
| "lexemesOf (CObj w ms w') =
     (w, LBrace)
     # tl (concat (map (\<lambda>(wc, wk, k, wcol, v).
             (wc, LComma) # (wk, LKey k) # (wcol, LColon) # lexemesOf v) ms))
     @ [(w', RBrace)]"

definition renderLexemes :: "(string \<times> lexeme) list \<Rightarrow> string" where
  "renderLexemes ls = concat (map (\<lambda>(w, l). w @ lexemeText l) ls)"

definition render :: "cst \<Rightarrow> string" where
  "render c = renderLexemes (lexemesOf c)"

fun valueOf :: "cst \<Rightarrow> json" where
  "valueOf (CLit w t) = literalValue t"
| "valueOf (CNum w n) = JNum (numLexValue n)"
| "valueOf (CStr w its) = JStr (strValue its)"
| "valueOf (CArr w es w') = JArr (map (\<lambda>(wc, e). valueOf e) es)"
| "valueOf (CObj w ms w') =
     JObj (foldl (\<lambda>acc (wc, wk, k, wcol, v). recordSet acc (strValue k) (valueOf v)) [] ms)"

definition isWs :: "string \<Rightarrow> bool" where
  "isWs w = list_all isJsonWs w"

fun wellFormed :: "cst \<Rightarrow> bool" where
  "wellFormed (CLit w t) = isWs w"
| "wellFormed (CNum w n) = (isWs w \<and> validNumLex n)"
| "wellFormed (CStr w its) = (isWs w \<and> list_all validStrItem its)"
| "wellFormed (CArr w es w') =
     (isWs w \<and> isWs w' \<and> list_all (\<lambda>(wc, e). isWs wc \<and> wellFormed e) es)"
| "wellFormed (CObj w ms w') =
     (isWs w \<and> isWs w' \<and>
      list_all (\<lambda>(wc, wk, k, wcol, v).
        isWs wc \<and> isWs wk \<and> list_all validStrItem k \<and> isWs wcol \<and> wellFormed v) ms)"

text \<open>The restrictions under which the parser is compared with the standard parse.\<close>

definition isContainer :: "cst \<Rightarrow> bool" where
  "isContainer c = (case c of CArr w es w' \<Rightarrow> True | CObj w ms w' \<Rightarrow> True | _ \<Rightarrow> False)"

fun noEmptyKey :: "cst \<Rightarrow> bool" where
  "noEmptyKey (CArr w es w') = list_all (\<lambda>(wc, e). noEmptyKey e) es"
| "noEmptyKey (CObj w ms w') = list_all (\<lambda>(wc, wk, k, wcol, v). k \<noteq> [] \<and> noEmptyKey v) ms"
| "noEmptyKey c = True"

fun nesting :: "cst \<Rightarrow> nat" where
  "nesting (CArr w es w') = Suc (foldl max 0 (map (\<lambda>(wc, e). nesting e) es))"
| "nesting (CObj w ms w') = Suc (foldl max 0 (map (\<lambda>(wc, wk, k, wcol, v). nesting v) ms))"
| "nesting c = 0"

subsection \<open>The parser seen as a machine over lexemes\<close>

text \<open>
  What the strict parser without a schema does with the token of each lexeme, stripped
  of paths and bookkeeping: the state, the open containers (the current one first) and
  the root. \<open>None\<close> is a lexeme the machine does not take.
\<close>

datatype aframe = AObject "(string \<times> json) list" "string option" | AArray "json list"

fun afterValue :: "aframe list \<Rightarrow> json option \<Rightarrow> json \<Rightarrow> (ParserState \<times> aframe list \<times> json option) option" where
  "afterValue [] res x = Some (Complete, [], Some x)"
| "afterValue (AObject kvs (Some k) # fs) res x =
     (if k = [] then None
      else Some (ExpectingCommaOrEnd, AObject (recordSet kvs k x) None # fs, res))"
| "afterValue (AObject kvs None # fs) res x = None"
| "afterValue (AArray xs # fs) res x = Some (ExpectingCommaOrEnd, AArray (xs @ [x]) # fs, res)"

definition lexemeValue :: "lexeme \<Rightarrow> json" where
  "lexemeValue l =
     (case l of
        LKey its \<Rightarrow> JStr (strValue its) | LStr its \<Rightarrow> JStr (strValue its)
      | LNum n \<Rightarrow> JNum (numLexValue n) | LLit t \<Rightarrow> literalValue t
      | _ \<Rightarrow> JNull)"

definition isScalarLexeme :: "lexeme \<Rightarrow> bool" where
  "isScalarLexeme l = (case l of LStr its \<Rightarrow> True | LNum n \<Rightarrow> True | LLit t \<Rightarrow> True | _ \<Rightarrow> False)"

fun valueSlot :: "ParserState \<Rightarrow> aframe list \<Rightarrow> bool" where
  "valueSlot ExpectingValue (AObject kvs (Some k) # fs) = (k \<noteq> [])"
| "valueSlot InArray (AArray xs # fs) = True"
| "valueSlot st fs = False"

definition absStep ::
  "int \<Rightarrow> ParserState \<times> aframe list \<times> json option \<Rightarrow> lexeme
   \<Rightarrow> (ParserState \<times> aframe list \<times> json option) option" where
  "absStep md c l =
     (case c of (st, fs, res) \<Rightarrow>
       if l = LBrace \<or> l = LBrack then
         (if ((st = Initial \<and> fs = []) \<or> valueSlot st fs) \<and> int (length fs) < md
          then Some (if l = LBrace then (ExpectingKey, AObject [] None # fs, res)
                     else (InArray, AArray [] # fs, res))
          else None)
       else if isScalarLexeme l then
         (if valueSlot st fs then afterValue fs res (lexemeValue l) else None)
       else
         (case (l, st, fs) of
            (LKey its, ExpectingKey, AObject kvs k # fs') \<Rightarrow>
              if strValue its \<noteq> [] then Some (ExpectingColon, AObject kvs (Some (strValue its)) # fs', res)
              else None
          | (LColon, ExpectingColon, _) \<Rightarrow> Some (ExpectingValue, fs, res)
          | (LComma, ExpectingCommaOrEnd, AObject kvs k # fs') \<Rightarrow> Some (ExpectingKey, fs, res)
          | (LComma, ExpectingCommaOrEnd, AArray xs # fs') \<Rightarrow> Some (InArray, fs, res)
          | (RBrace, ExpectingKey, AObject kvs k # fs') \<Rightarrow> afterValue fs' res (JObj kvs)
          | (RBrace, ExpectingCommaOrEnd, AObject kvs k # fs') \<Rightarrow> afterValue fs' res (JObj kvs)
          | (RBrack, InArray, AArray xs # fs') \<Rightarrow> afterValue fs' res (JArr xs)
          | (RBrack, ExpectingCommaOrEnd, AArray xs # fs') \<Rightarrow> afterValue fs' res (JArr xs)
          | _ \<Rightarrow> None))"

fun absRun ::
  "int \<Rightarrow> ParserState \<times> aframe list \<times> json option \<Rightarrow> lexeme list
   \<Rightarrow> (ParserState \<times> aframe list \<times> json option) option" where
  "absRun md c [] = Some c"
| "absRun md c (l # ls) = (case absStep md c l of None \<Rightarrow> None | Some c' \<Rightarrow> absRun md c' ls)"

text \<open>The machine and the parser object agree; a token is the token of a lexeme.\<close>

fun frameRel :: "aframe \<Rightarrow> StackFrame \<Rightarrow> bool" where
  "frameRel (AObject kvs k) f = (ftype f = FObject \<and> fdata f = JObj kvs \<and> currentKey f = k)"
| "frameRel (AArray xs) f = (ftype f = FArray \<and> fdata f = JArr xs)"

definition sim :: "int \<Rightarrow> ParserState \<times> aframe list \<times> json option \<Rightarrow> StreamingJSONParser \<Rightarrow> bool" where
  "sim md c p =
     (case c of (st, fs, res) \<Rightarrow>
        state p = st \<and> list_all2 frameRel fs (rev (stack p)) \<and> result p = res
        \<and> validator p = None \<and> \<not> llmMode (options p) \<and> maxDepth (options p) = md
        \<and> perrors p = [])"

definition tokenOf :: "lexeme \<Rightarrow> Token \<Rightarrow> bool" where
  "tokenOf l tok =
     (tvalue tok = lexemeValue l \<and>
      (case l of
         LBrace \<Rightarrow> ttype tok = TokObjectStart | RBrace \<Rightarrow> ttype tok = TokObjectEnd
       | LBrack \<Rightarrow> ttype tok = TokArrayStart | RBrack \<Rightarrow> ttype tok = TokArrayEnd
       | LColon \<Rightarrow> ttype tok = TokColon | LComma \<Rightarrow> ttype tok = TokComma
       | LKey its \<Rightarrow> ttype tok = TokKey \<or> ttype tok = TokString
       | LStr its \<Rightarrow> ttype tok = TokString
       | LNum n \<Rightarrow> ttype tok = TokNumber
       | LLit t \<Rightarrow> ttype tok = (if t = LitNull then TokNull else TokBoolean)))"

definition strictTokenizer :: "StreamingTokenizer \<Rightarrow> bool" where
  "strictTokenizer t =
     (\<not> tAllowSingleQuotes (toptions t) \<and> \<not> tAllowUnquotedKeys (toptions t)
      \<and> \<not> tLlmMode (toptions t))"

subsection \<open>Predicates on parser states\<close>

text \<open>
  What stays true from one parser state to a later one of the same object: the options,
  the validator and the tokenizer options are kept, the byte counter is kept by
  everything but \<open>feed\<close> itself, the completed paths only grow, the stack stays
  within the depth ceiling, and the stack is empty in the states \<open>Initial\<close> and
  \<open>Complete\<close>.
\<close>

definition outcomeSat ::
  "(StreamingJSONParser \<Rightarrow> bool) \<Rightarrow> (StreamingJSONParser \<Rightarrow> bool) \<Rightarrow> Outcome \<Rightarrow> bool" where
  "outcomeSat R T out = (case out of Returned p \<Rightarrow> R p | Thrown m p \<Rightarrow> T p | Diverged \<Rightarrow> True)"

definition depthOk :: "StreamingJSONParser \<Rightarrow> bool" where
  "depthOk p = (int (length (stack p)) \<le> max 0 (maxDepth (options p)))"

definition restOk :: "StreamingJSONParser \<Rightarrow> bool" where
  "restOk p = (if state p = Initial \<or> state p = Complete then stack p = [] else True)"

definition later :: "StreamingJSONParser \<Rightarrow> StreamingJSONParser \<Rightarrow> bool" where
  "later p p' =
     (options p' = options p \<and> validator p' = validator p
      \<and> toptions (tokenizer p') = toptions (tokenizer p)
      \<and> pbytesProcessed p' = pbytesProcessed p
      \<and> list_all (\<lambda>x. x \<in> set (completedPaths p')) (completedPaths p)
      \<and> (if depthOk p then depthOk p' else True))"

definition failed :: "StreamingJSONParser \<Rightarrow> StreamingJSONParser \<Rightarrow> bool" where
  "failed p p' = (later p p' \<and> state p' = Error \<and> \<not> llmMode (options p))"

definition stepOk :: "StreamingJSONParser \<Rightarrow> StreamingJSONParser \<Rightarrow> bool" where
  "stepOk p p' = (later p p' \<and> (if restOk p then restOk p' else True))"

definition feedStep :: "StreamingJSONParser \<Rightarrow> nat \<Rightarrow> StreamingJSONParser \<Rightarrow> bool" where
  "feedStep p k p' =
     (options p' = options p \<and> validator p' = validator p
      \<and> toptions (tokenizer p') = toptions (tokenizer p)
      \<and> pbytesProcessed p' = pbytesProcessed p + k
      \<and> list_all (\<lambda>x. x \<in> set (completedPaths p')) (completedPaths p)
      \<and> (if depthOk p then depthOk p' else True)
      \<and> (if restOk p then restOk p' else True))"

subsection \<open>Parsers used in the examples\<close>

definition feedResult :: "FeedOutcome \<Rightarrow> ParseResult option" where
  "feedResult out = (case out of FeedReturned r p \<Rightarrow> Some r | _ \<Rightarrow> None)"

text \<open>\<open>createStreamParser()\<close>.\<close>

definition strictParser :: StreamingJSONParser where
  "strictParser = createStreamParser (\<lambda>p s. True) None noOptions"

text \<open>The schema \<open>{type: object, properties: {a: {type: object, properties: {}}}, required: [a]}\<close>.\<close>

definition nestedSchema :: JSONSchema where
  "nestedSchema = objectSchema [(''a'', objectSchema [] None)] (Some [''a''])"

definition nestedSchemaParser :: StreamingJSONParser where
  "nestedSchemaParser = createStreamParser (\<lambda>p s. True) (Some nestedSchema) noOptions"



text \<open>\<open>createLLMParser(undefined, {allowSingleQuotes: false})\<close>.\<close>

definition doubleQuotesOnlyParser :: StreamingJSONParser where
  "doubleQuotesOnlyParser =
     createLLMParser (\<lambda>p s. True) None (noOptions\<lparr> optAllowSingleQuotes := Some False \<rparr>)"




subsection \<open>Validators used in the examples\<close>

text \<open>The schemas \<open>{type: string}\<close> and \<open>{properties: {}}\<close> under the default options.\<close>

definition stringValidator :: SchemaValidator where
  "stringValidator =
     newSchemaValidator (\<lambda>p s. True) (typeSchema TString) defaultValidatorOptions"


section \<open>Properties of reference resolution\<close>

lemma resolveRef_step:
  "resolveRef ds s = (case refTarget ds s of None \<Rightarrow> Some s | Some d \<Rightarrow> resolveRef ds d)"
  by (subst resolveRef.simps) (simp add: refTarget_def split: option.splits)


lemma resolveRef_defined_in_table:
  assumes rk: "\<And>d d'. d \<in> ran (map_of ds) \<Longrightarrow> refTarget ds d = Some d' \<Longrightarrow> rank d' < (rank d :: nat)"
  shows "d \<in> ran (map_of ds) \<Longrightarrow> \<exists>y. resolveRef ds d = Some y"
proof (induction "rank d" arbitrary: d rule: less_induct)
  case less
  show ?case
  proof (cases "refTarget ds d")
    case None
    then show ?thesis by (simp add: resolveRef_step)
  next
    case (Some d')
    then have "d' \<in> ran (map_of ds)"
      by (auto simp: refTarget_def ran_def split: option.splits if_splits)
    moreover have "rank d' < rank d" using rk less.prems Some by blast
    ultimately obtain y where "resolveRef ds d' = Some y" using less.hyps by blast
    with Some show ?thesis by (simp add: resolveRef_step)
  qed
qed

lemma resolveRef_not_cyclic:
  assumes "resolveRef ds s = Some y"
  shows "ds = cyclicDefs \<longrightarrow> s \<noteq> refSchema ''#/$defs/a'' \<and> s \<noteq> refSchema ''#/$defs/b''"
proof (rule resolveRef.raw_induct [where P = "\<lambda>ds s y. ds = cyclicDefs \<longrightarrow>
    s \<noteq> refSchema ''#/$defs/a'' \<and> s \<noteq> refSchema ''#/$defs/b''", OF _ assms])
  fix rr ds s and y :: JSONSchema
  assume IH: "\<And>ds s y. rr ds s = Some y \<Longrightarrow>
      ds = cyclicDefs \<longrightarrow> s \<noteq> refSchema ''#/$defs/a'' \<and> s \<noteq> refSchema ''#/$defs/b''"
    and eq: "(case ref s of None \<Rightarrow> Some s
      | Some r \<Rightarrow>
          if r = [] then Some s
          else if startsWith r ''#/$defs/'' \<or> startsWith r ''#/definitions/''
               then if lastSegment r \<noteq> []
                    then case map_of ds (lastSegment r) of None \<Rightarrow> Some s
                         | Some d \<Rightarrow> rr ds d
                    else Some s
               else Some s) = Some y"
  show "ds = cyclicDefs \<longrightarrow> s \<noteq> refSchema ''#/$defs/a'' \<and> s \<noteq> refSchema ''#/$defs/b''"
  proof (intro impI conjI notI)
    assume "ds = cyclicDefs" "s = refSchema ''#/$defs/a''"
    with eq have "rr ds (refSchema ''#/$defs/b'') = Some y"
      by (simp add: refSchema_def cyclicDefs_def startsWith_def lastSegment_def)
    from IH [OF this] \<open>ds = cyclicDefs\<close> show False by simp
  next
    assume "ds = cyclicDefs" "s = refSchema ''#/$defs/b''"
    with eq have "rr ds (refSchema ''#/$defs/a'') = Some y"
      by (simp add: refSchema_def cyclicDefs_def startsWith_def lastSegment_def)
    from IH [OF this] \<open>ds = cyclicDefs\<close> show False by simp
  qed
qed

text \<open>
  C8 (as stated): \<open>resolveRef\<close> terminates for every schema, also when definitions refer
  to one another. It does not: on two definitions that point at each other the call
  never returns, and the validator built from such a schema has exactly this table.
\<close>

theorem resolveRef_cycle_diverges:
  "vdefinitions (newSchemaValidator (\<lambda>p s. True)
       (withDefs cyclicDefs (refSchema ''#/$defs/a'')) defaultValidatorOptions) = cyclicDefs
   \<and> resolveRef cyclicDefs (refSchema ''#/$defs/a'') = None"
proof
  show "vdefinitions (newSchemaValidator (\<lambda>p s. True)
       (withDefs cyclicDefs (refSchema ''#/$defs/a'')) defaultValidatorOptions) = cyclicDefs"
    by (simp add: newSchemaValidator_def withDefs_def refSchema_def cyclicDefs_def
        spread_def orEmpty_def)
  show "resolveRef cyclicDefs (refSchema ''#/$defs/a'') = None"
    using resolveRef_not_cyclic [of cyclicDefs "refSchema ''#/$defs/a''"]
    by (cases "resolveRef cyclicDefs (refSchema ''#/$defs/a'')") auto
qed

text \<open>
  C8 (amended): \<open>resolveRef\<close> returns for every schema when the definitions table has no
  \<open>$ref\<close> cycle, that is, when some rank on the definitions strictly decreases along
  every \<open>$ref\<close> from one definition to another.
\<close>

theorem resolveRef_terminates:
  assumes "\<forall>d d'. d \<in> ran (map_of ds) \<and> refTarget ds d = Some d' \<longrightarrow> rank d' < (rank d :: nat)"
  shows "\<exists>y. resolveRef ds s = Some y"
proof (cases "refTarget ds s")
  case None
  then show ?thesis by (simp add: resolveRef_step)
next
  case (Some d)
  then have "d \<in> ran (map_of ds)"
    by (auto simp: refTarget_def ran_def split: option.splits if_splits)
  then obtain y where "resolveRef ds d = Some y"
    using resolveRef_defined_in_table [of ds rank d] assms by blast
  with Some show ?thesis by (simp add: resolveRef_step)
qed

theorem resolveRef_terminates_witness:
  "\<exists>y. resolveRef chainDefs (refSchema ''#/$defs/a'') = Some y"
proof -
  have h: "\<forall>d d'. d \<in> ran (map_of chainDefs) \<and> refTarget chainDefs d = Some d'
      \<longrightarrow> chainRank d' < chainRank d"
    by (auto simp: chainDefs_def ran_def refTarget_def chainRank_def refSchema_def
        typeSchema_def startsWith_def lastSegment_def split: if_splits)
  from resolveRef_terminates [OF h, of "refSchema ''#/$defs/a''"] show ?thesis .
qed


section \<open>Properties of the validator\<close>



lemma stringValidator_no_schema_at_a: "getSchemaAtPath stringValidator [''a''] = Some None"
  by (simp add: stringValidator_def getSchemaAtPath_def newSchemaValidator_def typeSchema_def
      resolveRef.simps orEmpty_def spread_def)



text \<open>
  C10: for a non-empty path at which \<open>getSchemaAtPath\<close> returns \<open>undefined\<close>, \<open>validate\<close>
  returns the empty error list, whatever the value.
\<close>

theorem validate_unaddressed_path:
  "p \<noteq> [] \<Longrightarrow> getSchemaAtPath v p = Some None \<Longrightarrow> validate n v x p = Some []"
  by (simp add: validate_def)

theorem validate_unaddressed_path_witness:
  "validate 0 stringValidator (JNum 1) [''a''] = Some []"
  using validate_unaddressed_path [of "[''a'']" stringValidator 0 "JNum 1"]
    stringValidator_no_schema_at_a
  by simp





section \<open>Properties of the parser\<close>

lemma later_refl: "later p p" by (simp add: later_def list_all_iff)

lemma later_trans: "later p q \<Longrightarrow> later q r \<Longrightarrow> later p r"
  by (auto simp: later_def list_all_iff split: if_splits)

lemma later_failed: "later p q \<Longrightarrow> failed q r \<Longrightarrow> failed p r"
  by (auto simp: failed_def later_def list_all_iff split: if_splits)

lemma later_state [simp]: "later p (q\<lparr> state := s \<rparr>) = later p q"
  by (simp add: later_def depthOk_def)

lemma later_state' [simp]: "later (p\<lparr> state := s \<rparr>) q = later p q"
  by (simp add: later_def depthOk_def)

lemma outcomeSat_andThen:
  "outcomeSat Q T out \<Longrightarrow> (\<And>q. Q q \<Longrightarrow> outcomeSat R T' (f q)) \<Longrightarrow> (\<And>q. T q \<Longrightarrow> T' q)
   \<Longrightarrow> outcomeSat R T' (andThen out f)"
  by (cases out) (auto simp: outcomeSat_def andThen_def)

lemma outcomeSat_weaken:
  "outcomeSat Q T out \<Longrightarrow> (\<And>q. Q q \<Longrightarrow> R q) \<Longrightarrow> (\<And>q. T q \<Longrightarrow> T' q) \<Longrightarrow> outcomeSat R T' out"
  by (cases out) (auto simp: outcomeSat_def)

lemma setError_sat:
  "outcomeSat (\<lambda>p'. later p p' \<and> state p' = Error \<and> stack p' = stack p) (failed p) (setError m p)"
  by (simp add: setError_def outcomeSat_def failed_def later_refl)

lemma setState_sat:
  "outcomeSat (\<lambda>p'. later p p' \<and> state p' = s \<and> stack p' = stack p) T (setState s p)"
  by (simp add: setState_def outcomeSat_def later_refl)

lemma parserValidateValue_sat:
  "outcomeSat (\<lambda>p'. later p p' \<and> state p' = state p \<and> stack p' = stack p) T
     (parserValidateValue n x pth p)"
  by (auto simp: parserValidateValue_def outcomeSat_def later_def depthOk_def list_all_iff
      split: option.splits)

lemma startContainer_sat:
  "outcomeSat (\<lambda>p'. later p p' \<and> (state p' = state p \<or> state p' = Error)) (failed p)
     (startContainer ft p)"
  by (auto simp: startContainer_def setError_def outcomeSat_def failed_def later_def depthOk_def
      list_all_iff Let_def setAdd_def split: option.splits)

lemma length_updateFrame: "stack p \<noteq> [] \<Longrightarrow> length (stack (updateFrame f p)) = length (stack p)"
  by (simp add: updateFrame_def)

lemma later_updateFrame: "stack p \<noteq> [] \<Longrightarrow> later p (updateFrame f p)"
  by (simp add: later_def depthOk_def updateFrame_def list_all_iff)

lemma state_updateFrame [simp]: "state (updateFrame f p) = state p"
  by (simp add: updateFrame_def)

lemma later_then_updateFrame:
  "later p q \<Longrightarrow> stack q \<noteq> [] \<Longrightarrow> later p (updateFrame f q)"
  by (blast intro: later_trans later_updateFrame)

lemma assignValue_sat:
  "outcomeSat (\<lambda>p'. later p p' \<and> length (stack p') = length (stack p)
       \<and> (state p' = state p \<or> state p' = Error)) (failed p) (assignValue x p)"
  by (auto simp: assignValue_def currentFrame_def setError_def outcomeSat_def failed_def later_def
      depthOk_def updateFrame_def list_all_iff Let_def setAdd_def split: option.splits if_splits)

lemma endContainer_sat:
  "outcomeSat (\<lambda>p'. later p p' \<and> restOk p') (failed p) (endContainer n ft m p)"
proof (cases "stack p = [] \<or> ftype (last (stack p)) \<noteq> ft")
  case True
  then show ?thesis
    by (auto simp: endContainer_def setError_def outcomeSat_def failed_def later_def depthOk_def
      restOk_def list_all_iff Let_def)
next
  case False
  define p2 where "p2 = p\<lparr> stack := butlast (stack p),
      completedPaths := setAdd (completedPaths p) (join ''.'' (pathOfStack False (butlast (stack p)))),
      pendingPaths := setDelete (pendingPaths p) (join ''.'' (pathOfStack False (butlast (stack p)))) \<rparr>"
  have l2: "later p p2"
    by (auto simp: p2_def later_def depthOk_def list_all_iff setAdd_def)
  have eq: "endContainer n ft m p =
      andThen (parserValidateValue n (fdata (last (stack p))) (pathOfStack False (butlast (stack p))) p2) (\<lambda>p3.
                  andThen (assignValue (fdata (last (stack p))) p3) (\<lambda>p4.
                    if stack p4 = [] then setState Complete p4
                    else setState ExpectingCommaOrEnd p4))"
    using False by (simp add: endContainer_def Let_def p2_def getCurrentPath_def)
  show ?thesis
    unfolding eq
    apply (rule outcomeSat_andThen [OF parserValidateValue_sat])
     apply (rule outcomeSat_andThen [OF assignValue_sat])
      apply (auto simp: setState_def outcomeSat_def restOk_def intro: later_trans [OF l2] later_trans later_failed[OF l2] later_failed)
    done
qed

lemma pushArrayValue_sat:
  "outcomeSat (\<lambda>p'. later p p' \<and> (state p' = state p \<or> state p' = Error)) (failed p)
     (pushArrayValue n x p)"
proof (cases "stack p = [] \<or> ftype (last (stack p)) \<noteq> FArray")
  case True
  then show ?thesis
    by (auto simp: pushArrayValue_def currentFrame_def intro!: outcomeSat_weaken [OF setError_sat])
next
  case False
  define pth where "pth = getCurrentPath False p @ [showNat (arrayIndex (last (stack p)))]"
  define p2 where "p2 = (updateFrame ((last (stack p))\<lparr> fdata := arrayPush (fdata (last (stack p))) x \<rparr>) p)
     \<lparr> completedPaths := setAdd (completedPaths p) (join ''.'' pth),
       pendingPaths := setDelete (pendingPaths p) (join ''.'' pth) \<rparr>"
  have l2: "later p p2" "state p2 = state p" "stack p2 \<noteq> []"
    using False by (auto simp: p2_def later_def depthOk_def list_all_iff setAdd_def updateFrame_def)
  have eq: "pushArrayValue n x p = andThen (parserValidateValue n x pth p2) (\<lambda>p3.
                  Returned (updateFrame
                    ((last (stack p3))\<lparr> arrayIndex := arrayIndex (last (stack p3)) + 1 \<rparr>) p3))"
    using False by (simp add: pushArrayValue_def currentFrame_def Let_def p2_def pth_def updateFrame_def)
  show ?thesis
    unfolding eq
    apply (rule outcomeSat_andThen [OF parserValidateValue_sat, where T = "\<lambda>q. False"])
    using l2 by (auto simp: outcomeSat_def intro!: later_then_updateFrame intro: later_trans [OF l2(1)])
qed

lemma setValue_sat:
  "outcomeSat (\<lambda>p'. later p p' \<and> (state p' = state p \<or> state p' = Error)) (failed p)
     (setValue n x p)"
proof (cases "stack p = []")
  case True
  have l: "later p (p\<lparr> result := Some x \<rparr>)" by (simp add: later_def depthOk_def list_all_iff)
  show ?thesis using True
    apply (simp add: setValue_def currentFrame_def andThen_def)
    apply (rule outcomeSat_weaken [OF parserValidateValue_sat, where T = "\<lambda>q. False"])
    using l by (auto intro: later_trans)
next
  case ne: False
  show ?thesis
  proof (cases "ftype (last (stack p)) = FObject")
    case False
    with ne show ?thesis by (simp add: setValue_def currentFrame_def pushArrayValue_sat)
  next
    case True
    show ?thesis
    proof (cases "truthyKey (currentKey (last (stack p)))")
      case False
      with ne True show ?thesis
        by (auto simp: setValue_def currentFrame_def intro!: outcomeSat_weaken [OF setError_sat])
    next
      case tk: True
      define k where "k = the (currentKey (last (stack p)))"
      define pth where "pth = getCurrentPath False p @ [k]"
      define p2 where "p2 = (updateFrame ((last (stack p))\<lparr> fdata := objectAssign (fdata (last (stack p))) k x,
              completedKeys := setAdd (completedKeys (last (stack p))) k \<rparr>) p)
         \<lparr> completedPaths := setAdd (completedPaths p) (join ''.'' pth),
           pendingPaths := setDelete (pendingPaths p) (join ''.'' pth) \<rparr>"
      have l2: "later p p2" "state p2 = state p" "stack p2 \<noteq> []"
        using ne by (auto simp: p2_def later_def depthOk_def list_all_iff setAdd_def updateFrame_def)
      have eq: "setValue n x p = andThen (parserValidateValue n x pth p2) (\<lambda>p3.
                     Returned (updateFrame ((last (stack p3))\<lparr> currentKey := None \<rparr>) p3))"
        using ne True tk
        by (simp add: setValue_def currentFrame_def Let_def p2_def pth_def k_def updateFrame_def)
      show ?thesis
        unfolding eq
        apply (rule outcomeSat_andThen [OF parserValidateValue_sat, where T = "\<lambda>q. False"])
        using l2 by (auto simp: outcomeSat_def intro!: later_then_updateFrame intro: later_trans [OF l2(1)])
    qed
  qed
qed

lemma stepOk_refl: "stepOk p p" by (simp add: stepOk_def later_refl)

lemma stepOk_trans: "stepOk p q \<Longrightarrow> stepOk q r \<Longrightarrow> stepOk p r"
  by (auto simp: stepOk_def intro: later_trans split: if_splits)

lemma stepOk_failed: "stepOk p q \<Longrightarrow> failed q r \<Longrightarrow> failed p r"
  by (auto simp: stepOk_def intro: later_failed)

lemma stepOk_from_state: "stepOk (p\<lparr> state := s \<rparr>) q \<Longrightarrow> s \<noteq> Initial \<Longrightarrow> s \<noteq> Complete \<Longrightarrow> stepOk p q"
  by (auto simp: stepOk_def restOk_def split: if_splits)

lemma failed_from_state: "failed (p\<lparr> state := s \<rparr>) q \<Longrightarrow> failed p q"
  by (auto simp: failed_def)

lemma open_sat:
  "s \<noteq> Initial \<Longrightarrow> s \<noteq> Complete \<Longrightarrow>
   outcomeSat (stepOk p) (failed p) (andThen (startContainer ft p) (setState s))"
  apply (rule outcomeSat_andThen [OF startContainer_sat])
  by (auto simp: setState_def outcomeSat_def stepOk_def restOk_def)

lemma scalar_sat:
  assumes "outcomeSat (\<lambda>p'. later p p' \<and> (state p' = state p \<or> state p' = Error)) (failed p) out"
  shows "outcomeSat (stepOk p) (failed p) (andThen out (setState ExpectingCommaOrEnd))"
  apply (rule outcomeSat_andThen [OF assms])
  by (auto simp: setState_def outcomeSat_def stepOk_def restOk_def)

lemma setError_step: "outcomeSat (stepOk p) (failed p) (setError m p)"
  by (rule outcomeSat_weaken [OF setError_sat]) (auto simp: stepOk_def restOk_def)

lemma endContainer_step: "outcomeSat (stepOk p) (failed p) (endContainer n ft m p)"
  by (rule outcomeSat_weaken [OF endContainer_sat]) (auto simp: stepOk_def)

lemma handleInitialState_step:
  assumes "state p = Initial"
  shows "outcomeSat (stepOk p) (failed p) (handleInitialState n tok p)"
proof -
  have l: "later p (p\<lparr> result := Some (tvalue tok) \<rparr>)"
    by (simp add: later_def depthOk_def list_all_iff)
  have sc: "outcomeSat (stepOk p) (failed p)
      (andThen (parserValidateValue n (tvalue tok) [] (p\<lparr> result := Some (tvalue tok) \<rparr>))
          (setState Complete))"
    apply (rule outcomeSat_andThen [OF parserValidateValue_sat, where T = "\<lambda>q. False"])
    using assms l by (auto simp: setState_def outcomeSat_def stepOk_def restOk_def intro: later_trans)
  show ?thesis
    unfolding handleInitialState_def startObject_def startArray_def
    by (simp add: open_sat sc setError_step)
qed

lemma handleObjectState_step:
  "outcomeSat (stepOk p) (failed p) (handleObjectState n tok p)"
proof (cases "stack p = [] \<or> ftype (last (stack p)) \<noteq> FObject")
  case True
  then show ?thesis by (auto simp: handleObjectState_def currentFrame_def setError_step)
next
  case False
  have key: "outcomeSat (stepOk p) (failed p) (Returned ((updateFrame f p)\<lparr> pendingPaths := pp, state := ExpectingColon \<rparr>))" for f pp
    using False by (auto simp: outcomeSat_def stepOk_def restOk_def later_def depthOk_def updateFrame_def list_all_iff)
  have comma: "outcomeSat (stepOk p) (failed p) (Returned (p\<lparr> state := ExpectingKey,
                          tokenizer := setExpectingKey True (tokenizer p) \<rparr>))"
    by (auto simp: outcomeSat_def stepOk_def restOk_def later_def depthOk_def setExpectingKey_def list_all_iff)
  show ?thesis using False
    by (simp add: handleObjectState_def currentFrame_def Let_def key comma endObject_def
        endContainer_step setError_step)
qed

lemma handleValueState_step:
  "outcomeSat (stepOk p) (failed p) (handleValueState n tok p)"
proof -
  have same: "outcomeSat (stepOk p) (failed p) (Returned p)"
    by (simp add: outcomeSat_def stepOk_refl)
  show ?thesis
    unfolding handleValueState_def startObject_def startArray_def endObject_def endArray_def
    by (simp add: open_sat scalar_sat [OF setValue_sat] setError_step endContainer_step same)
qed

lemma handleColonState_step:
  "outcomeSat (stepOk p) (failed p) (handleColonState n tok p)"
proof -
  have "outcomeSat (stepOk p) (failed p) (handleValueState n tok (p\<lparr> state := ExpectingValue \<rparr>))"
    by (rule outcomeSat_weaken [OF handleValueState_step])
       (auto intro: stepOk_from_state failed_from_state)
  moreover have "outcomeSat (stepOk p) (failed p) (setState ExpectingValue p)"
    by (simp add: outcomeSat_def setState_def stepOk_def restOk_def later_refl)
  ultimately show ?thesis
    by (simp add: handleColonState_def setError_step)
qed

lemma handleArrayState_step:
  "outcomeSat (stepOk p) (failed p) (handleArrayState n tok p)"
proof -
  have same: "outcomeSat (stepOk p) (failed p) (Returned p)"
    by (simp add: outcomeSat_def stepOk_refl)
  show ?thesis
    unfolding handleArrayState_def startObject_def startArray_def endArray_def
    by (simp add: open_sat scalar_sat [OF pushArrayValue_sat] setError_step endContainer_step same
        split: option.splits)
qed

lemma handleCommaOrEndState_step:
  "outcomeSat (stepOk p) (failed p) (handleCommaOrEndState n tok p)"
proof (cases "stack p = []")
  case True
  then show ?thesis
    by (simp add: handleCommaOrEndState_def currentFrame_def setState_def outcomeSat_def
        stepOk_def restOk_def later_refl)
next
  case False
  have comma: "outcomeSat (stepOk p) (failed p) (Returned (p\<lparr> state := ExpectingKey,
                          tokenizer := setExpectingKey True (tokenizer p) \<rparr>))"
    by (auto simp: outcomeSat_def stepOk_def restOk_def later_def depthOk_def setExpectingKey_def list_all_iff)
  have arr: "outcomeSat (stepOk p) (failed p) (setState InArray p)"
    by (simp add: outcomeSat_def setState_def stepOk_def restOk_def later_refl)
  have o: "outcomeSat (stepOk p) (failed p) (handleObjectState n tok (p\<lparr> state := ExpectingKey \<rparr>))"
    by (rule outcomeSat_weaken [OF handleObjectState_step])
       (auto intro: stepOk_from_state failed_from_state)
  have a: "outcomeSat (stepOk p) (failed p) (handleArrayState n tok (p\<lparr> state := InArray \<rparr>))"
    by (rule outcomeSat_weaken [OF handleArrayState_step])
       (auto intro: stepOk_from_state failed_from_state)
  show ?thesis using False
    by (simp add: handleCommaOrEndState_def currentFrame_def comma arr o a endObject_def endArray_def
        endContainer_step setError_step)
qed

lemma handleError_step:
  "outcomeSat (stepOk p) (failed p) (handleError tok p)"
  by (auto simp: handleError_def setError_step)
     (auto simp: outcomeSat_def stepOk_def restOk_def later_def depthOk_def list_all_iff)

lemma processToken_tryRecover_step:
  "outcomeSat (stepOk p) (failed p) (processToken n tok p)"
  "outcomeSat (stepOk p) (failed p) (tryRecover n tok p)"
proof (induction n tok p and n tok p rule: processToken_tryRecover.induct)
  case (1 n token p)
  have same: "outcomeSat (stepOk p) (failed p) (Returned p)"
    by (simp add: outcomeSat_def stepOk_refl)
  show ?case
  proof (cases "ttype token = TokError")
    case True
    then show ?thesis by (subst processToken.simps) (simp add: handleError_step)
  next
    case False
    show ?thesis
    proof (cases "state p")
      case Initial
      with False show ?thesis
        by (subst processToken.simps) (simp add: handleInitialState_step)
    next
      case Error
      with False 1 same show ?thesis
        by (subst processToken.simps) simp
    qed (use False same in \<open>subst processToken.simps,
          simp add: handleObjectState_step handleColonState_step handleValueState_step
            handleArrayState_step handleCommaOrEndState_step\<close>)+
  qed
next
  case (2 n token p)
  have same: "outcomeSat (stepOk p) (failed p) (Returned p)"
    by (simp add: outcomeSat_def stepOk_refl)
  show ?case
  proof (cases "ttype token = TokObjectStart \<or> ttype token = TokArrayStart")
    case True
    then show ?thesis
      by (subst tryRecover.simps) (auto simp: startObject_def startArray_def open_sat)
  next
    case False
    show ?thesis
    proof (cases "(ttype token = TokObjectEnd \<or> ttype token = TokArrayEnd) \<and> stack p \<noteq> []")
      case True
      with False 2
      have "outcomeSat (stepOk (p\<lparr> state := ExpectingCommaOrEnd \<rparr>))
         (failed (p\<lparr> state := ExpectingCommaOrEnd \<rparr>))
         (processToken n token (p\<lparr> state := ExpectingCommaOrEnd \<rparr>))"
        by blast
      then have "outcomeSat (stepOk p) (failed p)
         (processToken n token (p\<lparr> state := ExpectingCommaOrEnd \<rparr>))"
        by (rule outcomeSat_weaken) (auto intro: stepOk_from_state failed_from_state)
      with False True show ?thesis
        by (subst tryRecover.simps) simp
    next
      case f2: False
      with False same show ?thesis
        by (subst tryRecover.simps) auto
    qed
  qed
qed

lemma processTokens_step:
  "outcomeSat (stepOk p) (failed p) (processTokens n toks p)"
proof (induction toks arbitrary: p)
  case Nil
  show ?case by (simp add: outcomeSat_def stepOk_refl)
next
  case (Cons tok toks)
  show ?case
    unfolding processTokens.simps
    apply (rule outcomeSat_andThen [OF processToken_tryRecover_step(1)])
     apply (rule outcomeSat_weaken [OF Cons.IH])
    by (auto intro: stepOk_trans stepOk_failed)
qed

subsection \<open>Tokenizer options never change\<close>

lemma processString_toptions: "toptions (fst (processString q t)) = toptions t"
  by (simp add: processString_def pushToken_def Let_def split: option.splits prod.splits)

lemma processNumber_toptions: "toptions (fst (processNumber t)) = toptions t"
  by (simp add: processNumber_def pushToken_def pushErrorToken_def Let_def split: option.splits)

lemma processUnquotedKey_toptions: "toptions (fst (processUnquotedKey t)) = toptions t"
  by (simp add: processUnquotedKey_def pushToken_def Let_def)

lemma processKeyword_toptions: "toptions (fst (processKeyword t)) = toptions t"
  by (simp add: processKeyword_def pushToken_def pushErrorToken_def Let_def
      processUnquotedKey_toptions split: option.splits prod.splits)

lemma processNextToken_toptions: "toptions (fst (processNextToken t)) = toptions t"
  by (simp add: processNextToken_def pushToken_def pushErrorToken_def Let_def skipWhitespace_def
      processString_toptions processNumber_toptions processKeyword_toptions
      processUnquotedKey_toptions)

lemma tokenizeLoop_toptions: "toptions (tokenizeLoop t) = toptions t"
proof (induction t rule: tokenizeLoop.induct)
  case (1 t)
  show ?case
  proof (cases "position t < length (buffer t)")
    case False
    then show ?thesis by (subst tokenizeLoop.simps) simp
  next
    case True
    obtain t' b where pn: "processNextToken t = (t', b)" by (cases "processNextToken t") auto
    with processNextToken_toptions [of t] have t': "toptions t' = toptions t" by simp
    show ?thesis
    proof (cases b)
      case True
      with 1 [OF \<open>position t < length (buffer t)\<close> pn [symmetric]] t' pn \<open>position t < length (buffer t)\<close>
      show ?thesis by (subst tokenizeLoop.simps) simp
    next
      case False
      with t' pn True show ?thesis by (subst tokenizeLoop.simps) simp
    qed
  qed
qed

lemma tokenizerFeed_toptions: "toptions (tokenizerFeed t chunk) = toptions t"
  by (simp add: tokenizerFeed_def Let_def tokenizeLoop_toptions)

subsection \<open>One call of feed\<close>

lemma feedStep_refl: "feedStep p 0 p"
  by (simp add: feedStep_def list_all_iff)

lemma feedStep_trans: "feedStep p j q \<Longrightarrow> feedStep q k r \<Longrightarrow> feedStep p (j + k) r"
  by (auto simp: feedStep_def list_all_iff split: if_splits)

lemma handlePartialToken_only_pending:
  "handlePartialToken tok q = q\<lparr> pendingPaths := pendingPaths (handlePartialToken tok q) \<rparr>"
  by (simp add: handlePartialToken_def Let_def split: option.splits)

lemma depthOk_pending: "depthOk (q\<lparr> pendingPaths := pp \<rparr>) = depthOk q"
  by (simp add: depthOk_def)

lemma restOk_pending: "restOk (q\<lparr> pendingPaths := pp \<rparr>) = restOk q"
  by (simp add: restOk_def)

lemma feedStep_pending: "feedStep p k q \<Longrightarrow> feedStep p k (q\<lparr> pendingPaths := pp \<rparr>)"
  by (simp add: feedStep_def depthOk_pending restOk_pending)

lemma feed_step:
  "case feed n p chunk of
     FeedReturned r p' \<Rightarrow> feedStep p (length chunk) p' \<and> r = buildResult p'
   | FeedThrown m p' \<Rightarrow> feedStep p (length chunk) p' \<and> state p' = Error \<and> \<not> llmMode (options p)
   | FeedDiverged \<Rightarrow> True"
proof -
  define p3 where "p3 = p\<lparr> pbytesProcessed := pbytesProcessed p + length chunk,
     tokenizer := tokenizerFeed (setExpectingKey
        (state p = ExpectingKey \<or> (state p = Initial \<and> stack p = [])) (tokenizer p)) chunk \<rparr>"
  have f3: "feedStep p (length chunk) p3"
    by (simp add: p3_def feedStep_def depthOk_def restOk_def list_all_iff tokenizerFeed_toptions
        setExpectingKey_def)
  have st: "stepOk p3 q \<Longrightarrow> feedStep p (length chunk) q" for q
    using f3 by (auto simp: stepOk_def later_def feedStep_def list_all_iff split: if_splits)
  have eq: "feed n p chunk =
     (case processTokens n (tokens (tokenizer p3)) p3 of
           Diverged \<Rightarrow> FeedDiverged
         | Thrown m p4 \<Rightarrow> FeedThrown m p4
         | Returned p4 \<Rightarrow>
             (let p5 = (case getPartialToken (tokenizer p4) of
                          Some partialToken \<Rightarrow> handlePartialToken partialToken p4
                        | None \<Rightarrow> p4)
              in FeedReturned (buildResult p5) p5))"
    by (simp add: feed_def p3_def Let_def)
  have llm: "llmMode (options p3) = llmMode (options p)" by (simp add: p3_def)
  show ?thesis
  proof (cases "processTokens n (tokens (tokenizer p3)) p3")
    case Diverged
    then show ?thesis by (simp add: eq)
  next
    case (Thrown m p4)
    with processTokens_step [of p3 n "tokens (tokenizer p3)"]
    have "failed p3 p4" by (simp add: outcomeSat_def)
    then have "feedStep p (length chunk) p4 \<and> state p4 = Error \<and> \<not> llmMode (options p)"
      using f3 llm by (auto simp: failed_def later_def feedStep_def list_all_iff restOk_def split: if_splits)
    with Thrown show ?thesis by (simp add: eq)
  next
    case (Returned p4)
    with processTokens_step [of p3 n "tokens (tokenizer p3)"]
    have "stepOk p3 p4" by (simp add: outcomeSat_def)
    then have f4: "feedStep p (length chunk) p4" by (rule st)
    show ?thesis
    proof (cases "getPartialToken (tokenizer p4)")
      case None
      with Returned f4 show ?thesis by (simp add: eq)
    next
      case (Some tok)
      from feedStep_pending [OF f4] handlePartialToken_only_pending [of tok p4]
      have "feedStep p (length chunk) (handlePartialToken tok p4)" by metis
      with Returned Some show ?thesis by (simp add: eq Let_def)
    qed
  qed
qed

lemma feed_parserAfter:
  "parserAfter (feed n p chunk) = Some q \<Longrightarrow> feedStep p (length chunk) q"
  using feed_step [where n = n and p = p and chunk = chunk]
  by (auto simp: parserAfter_def split: FeedOutcome.splits)

lemma feedAll_step:
  "out \<in> set (feedAll n p chunks) \<Longrightarrow> parserAfter out = Some q \<Longrightarrow> \<exists>k. feedStep p k q"
proof (induction chunks arbitrary: p)
  case Nil
  then show ?case by simp
next
  case (Cons c cs)
  show ?case
  proof (cases "out = feed n p c")
    case True
    with Cons.prems feed_parserAfter show ?thesis by blast
  next
    case False
    with Cons.prems(1) have "\<exists>p'. parserAfter (feed n p c) = Some p' \<and> out \<in> set (feedAll n p' cs)"
      by (cases "parserAfter (feed n p c)") (auto simp: Let_def)
    then obtain p' where p': "parserAfter (feed n p c) = Some p'"
      and mem: "out \<in> set (feedAll n p' cs)" by blast
    from Cons.IH [OF mem Cons.prems(2)] obtain k where "feedStep p' k q" by blast
    with feed_parserAfter [OF p'] feedStep_trans show ?thesis by blast
  qed
qed

lemma feedAll_returned:
  "out \<in> set (feedAll n p chunks) \<Longrightarrow> out = FeedReturned r q \<Longrightarrow> r = buildResult q"
proof (induction chunks arbitrary: p)
  case Nil
  then show ?case by simp
next
  case (Cons c cs)
  show ?case
  proof (cases "out = feed n p c")
    case True
    with Cons.prems(2) feed_step [where n = n and p = p and chunk = c] show ?thesis by simp
  next
    case False
    with Cons.prems(1) have "\<exists>p'. out \<in> set (feedAll n p' cs)"
      by (cases "parserAfter (feed n p c)") (auto simp: Let_def)
    with Cons.IH Cons.prems(2) show ?thesis by blast
  qed
qed


lemma feedAll_Suc:
  "Suc j < length (feedAll n p (c # cs)) \<Longrightarrow>
   \<exists>p'. parserAfter (feed n p c) = Some p' \<and> feedAll n p (c # cs) ! Suc j = feedAll n p' cs ! j
        \<and> j < length (feedAll n p' cs)"
  by (cases "parserAfter (feed n p c)") (auto simp: Let_def)

text \<open>
  C7: within one parse, \<open>completedFields\<close> only grows: a path in the result of one
  \<open>feed\<close> call is in the result of every later \<open>feed\<close> call on the same parser.
\<close>

theorem completedFields_monotone:
  "i < j \<Longrightarrow> j < length (feedAll n p chunks) \<Longrightarrow>
   feedAll n p chunks ! i = FeedReturned ri qi \<Longrightarrow>
   feedAll n p chunks ! j = FeedReturned rj qj \<Longrightarrow>
   set (completedFields ri) \<subseteq> set (completedFields rj)"
proof (induction chunks arbitrary: p i j)
  case Nil
  then show ?case by simp
next
  case (Cons c cs)
  from Cons.prems(1) obtain j' where j: "j = Suc j'" by (cases j) auto
  from feedAll_Suc [of j' n p c cs] Cons.prems(2) j
  obtain p' where p': "parserAfter (feed n p c) = Some p'"
    and nth: "feedAll n p (c # cs) ! Suc j' = feedAll n p' cs ! j'"
    and len: "j' < length (feedAll n p' cs)" by blast
  show ?case
  proof (cases i)
    case 0
    with Cons.prems(3) have f0: "feed n p c = FeedReturned ri qi" by (simp add: Let_def)
    with feed_step [where n = n and p = p and chunk = c] have ri: "ri = buildResult qi" by simp
    from f0 p' have "p' = qi" by (simp add: parserAfter_def)
    from nth j Cons.prems(4) have "feedAll n p' cs ! j' = FeedReturned rj qj" by simp
    with len have mem: "FeedReturned rj qj \<in> set (feedAll n p' cs)" by (metis nth_mem)
    from feedAll_step [OF mem] obtain k where "feedStep p' k qj" by (auto simp: parserAfter_def)
    moreover have "rj = buildResult qj"
      using feedAll_returned [OF mem] by simp
    ultimately show ?thesis using ri \<open>p' = qi\<close>
      by (auto simp: feedStep_def buildResult_def list_all_iff)
  next
    case (Suc i')
    from feedAll_Suc [of i' n p c cs] Cons.prems(1,2) Suc
    have nthi: "feedAll n p (c # cs) ! Suc i' = feedAll n p' cs ! i'"
      using p' by (auto simp: Let_def)
    show ?thesis
      using Cons.IH [of i' j' p'] Cons.prems Suc j nth nthi len by simp
  qed
qed

theorem completedFields_monotone_witness:
  \<open>set (completedFields (the (feedResult (feedAll 0 strictParser [''{"a":1,'', ''"b":2}''] ! 0))))
   \<subseteq> set (completedFields (the (feedResult (feedAll 0 strictParser [''{"a":1,'', ''"b":2}''] ! 1))))\<close>
proof -
  define outs where \<open>outs = feedAll 0 strictParser [''{"a":1,'', ''"b":2}'']\<close>
  have len: "length outs = 2" unfolding outs_def by code_simp
  have r0: "feedResult (outs ! 0) \<noteq> None" unfolding outs_def by code_simp
  have r1: "feedResult (outs ! 1) \<noteq> None" unfolding outs_def by code_simp
  from r0 obtain ri qi where i: "outs ! 0 = FeedReturned ri qi"
    by (cases "outs ! 0") (auto simp: feedResult_def)
  from r1 obtain rj qj where j: "outs ! 1 = FeedReturned rj qj"
    by (cases "outs ! 1") (auto simp: feedResult_def)
  have "set (completedFields ri) \<subseteq> set (completedFields rj)"
    by (rule completedFields_monotone [of 0 1 0 strictParser
          \<open>[''{"a":1,'', ''"b":2}'']\<close> ri qi rj qj, folded outs_def])
       (use len i j in simp_all)
  with i j show ?thesis unfolding outs_def [symmetric] by (simp add: feedResult_def)
qed

subsection \<open>Paths and the pop protocol\<close>

text \<open>
  C2: at every snapshot \<open>completedFields\<close> and \<open>pendingFields\<close> are disjoint. On the
  single chunk \<open>{"a":{"b":1}}\<close> the strict parser returns a snapshot that has the path
  \<open>a\<close> in both lists.
\<close>

theorem nested_key_path_completed_and_pending:
  \<open>map_option (\<lambda>r. (completedFields r, pendingFields r))
     (feedResult (feed 0 strictParser ''{"a":{"b":1}}'')) = Some ([''a.b'', [], ''a''], [''a''])\<close>
  by code_simp

text \<open>
  C3: a container close validates the popped value against the schema at the
  container's own path, also when the container is the value of a parent's pending
  key. With the schema \<open>nestedSchema\<close> and the chunk \<open>{"a":{}}\<close> the inner object is
  validated at the root path: the snapshot carries a \<open>required\<close> error at path \<open>[]\<close>,
  although the whole document validates without error, and the empty path is marked
  complete before \<open>a\<close> is.
\<close>

theorem nested_object_validated_at_parent_path:
  \<open>map_option (\<lambda>r. (complete r, data r, map (\<lambda>e. (path e, keyword e)) (errors r),
                       completedFields r))
     (feedResult (feed 2 nestedSchemaParser ''{"a":{}}''))
     = Some (True, Some (JObj [(''a'', JObj [])]), [([], ''required'')], [[], ''a''])
   \<and> validate 2 (the (validator nestedSchemaParser)) (JObj [(''a'', JObj [])]) [] = Some []\<close>
  by code_simp

subsection \<open>The depth ceiling\<close>








subsection \<open>Lenient flags\<close>

text \<open>
  C5 (as stated): with \<open>llmMode\<close> a lenient flag set to false explicitly stays false and
  is honoured. The tokenizer of \<open>createLLMParser(undefined, {allowSingleQuotes: false})\<close>
  has the flag on and reads a single-quoted key without an error.
\<close>

theorem explicit_false_flag_not_honoured:
  \<open>optAllowSingleQuotes (noOptions\<lparr> optAllowSingleQuotes := Some False \<rparr>) = Some False
   \<and> tAllowSingleQuotes (toptions (tokenizer doubleQuotesOnlyParser))
   \<and> map_option (\<lambda>r. (complete r, data r, errors r))
       (feedResult (feed 0 doubleQuotesOnlyParser (''{'' @ [CHR 0x27] @ ''a'' @ [CHR 0x27] @ '':1}'')))
     = Some (True, Some (JObj [(''a'', JNum 1)]), [])\<close>
  by code_simp

text \<open>
  C5 (amended): a parser constructed with \<open>llmMode = true\<close> has every lenient flag of its
  tokenizer true, whatever the options say about the flag, before and after every
  feed; the parser's own options keep the value passed for each flag (false when none
  is passed).
\<close>

theorem llmMode_overrides_lenient_flags:
  assumes "optLlmMode arg = Some True"
  shows "\<forall>q. q = newStreamingJSONParser rx arg
            \<or> (\<exists>out \<in> set (feedAll n (newStreamingJSONParser rx arg) chunks). parserAfter out = Some q)
          \<longrightarrow> tAllowTrailingCommas (toptions (tokenizer q))
              \<and> tAllowUnquotedKeys (toptions (tokenizer q))
              \<and> tAllowSingleQuotes (toptions (tokenizer q))
              \<and> llmMode (options q)
              \<and> allowTrailingCommas (options q) = nullish (optAllowTrailingCommas arg) False
              \<and> allowUnquotedKeys (options q) = nullish (optAllowUnquotedKeys arg) False
              \<and> allowSingleQuotes (options q) = nullish (optAllowSingleQuotes arg) False"
proof (intro allI impI)
  fix q
  define p0 where "p0 = newStreamingJSONParser rx arg"
  assume "q = newStreamingJSONParser rx arg
            \<or> (\<exists>out \<in> set (feedAll n (newStreamingJSONParser rx arg) chunks). parserAfter out = Some q)"
  then have "\<exists>k. feedStep p0 k q"
    using feedStep_refl feedAll_step unfolding p0_def by blast
  then have eq: "options q = options p0" "toptions (tokenizer q) = toptions (tokenizer p0)"
    by (auto simp: feedStep_def)
  show "tAllowTrailingCommas (toptions (tokenizer q))
              \<and> tAllowUnquotedKeys (toptions (tokenizer q))
              \<and> tAllowSingleQuotes (toptions (tokenizer q))
              \<and> llmMode (options q)
              \<and> allowTrailingCommas (options q) = nullish (optAllowTrailingCommas arg) False
              \<and> allowUnquotedKeys (options q) = nullish (optAllowUnquotedKeys arg) False
              \<and> allowSingleQuotes (options q) = nullish (optAllowSingleQuotes arg) False"
    unfolding eq using assms
    by (simp add: p0_def newStreamingJSONParser_def newStreamingTokenizer_def Let_def nullish_def)
qed

theorem llmMode_overrides_lenient_flags_witness:
  "tAllowSingleQuotes (toptions (tokenizer doubleQuotesOnlyParser))
   \<and> allowSingleQuotes (options doubleQuotesOnlyParser) = False"
proof -
  define arg where "arg = noOptions\<lparr> optAllowSingleQuotes := Some False, optLlmMode := Some True \<rparr>"
  have p0: "doubleQuotesOnlyParser = newStreamingJSONParser (\<lambda>p s. True) arg"
    by (simp add: doubleQuotesOnlyParser_def createLLMParser_def arg_def noOptions_def)
  have h: "optLlmMode arg = Some True" by (simp add: arg_def)
  from llmMode_overrides_lenient_flags [OF h, of "\<lambda>p s. True" 0 "[]"]
  show ?thesis unfolding p0 by (simp add: arg_def nullish_def)
qed

subsection \<open>Feeding a complete parser\<close>






end
